theory Spec2Isabelle
  imports Main "HOL-Library.Word" "HOL-Library.Multiset"
begin

section \<open>Values\<close>

text \<open>
  A JavaScript string is a sequence of UTF-16 code units and \<open>length\<close> counts them.
  User ids and document ids are opaque: they are only compared for equality.
  \<open>Date.now()\<close> is the time of the call, passed to every operation as \<open>now\<close>
  (milliseconds). The \<open>number\<close> fields \<open>order\<close> and \<open>dueDate\<close> are taken as integers.
\<close>

type_synonym jsstring = "16 word list"

datatype task_status = Todo | InProgress | Completed

datatype priority = Low | Medium | High

datatype action = Created | Updated | CompletedAction | Deleted | StatusChanged | PriorityChanged

datatype thread_status = Active | Archived

datatype comment_type = UserNote | AiSuggestion | AiInsight

text \<open>The payloads the endpoints store in \<open>oldValue\<close> and \<open>newValue\<close> (typed \<open>any\<close>).\<close>

datatype activity_value =
    VStatus task_status
  | VPriority priority
  | VTitlePriority jsstring priority
  | VTitle jsstring

text \<open>
  Every \<open>throw new Error(...)\<close> of the endpoint layer, by category:
  "Not authenticated" is \<open>Unauthenticated\<close>; "Rate limit exceeded. Retry after N ms" is
  \<open>RateLimited N\<close>; "... not found" is \<open>NotFound\<close>; "Not authorized to ..." is
  \<open>Forbidden\<close>; "Invalid ..." and "... already exists"/"already added" are
  \<open>InvalidArgument\<close>. \<open>NonexistentDocument\<close> is the document store refusing to patch or
  delete an id it does not hold. A mutation that throws is rolled back as a whole, so a
  failing operation returns only its error.
\<close>

datatype error =
    Unauthenticated
  | RateLimited nat
  | NotFound
  | Forbidden
  | InvalidArgument
  | NonexistentDocument

section \<open>Validation helpers (convex/helpers/validation.ts)\<close>

text \<open>The code units \<open>String.prototype.trim\<close> removes: white space and line terminators.\<close>

definition isWhiteSpace :: "16 word \<Rightarrow> bool" where
  "isWhiteSpace c \<longleftrightarrow>
     c = 0x0009 \<or> c = 0x000A \<or> c = 0x000B \<or> c = 0x000C \<or> c = 0x000D \<or> c = 0x0020 \<or>
     c = 0x00A0 \<or> c = 0x1680 \<or> (0x2000 \<le> c \<and> c \<le> 0x200A) \<or> c = 0x2028 \<or>
     c = 0x2029 \<or> c = 0x202F \<or> c = 0x205F \<or> c = 0x3000 \<or> c = 0xFEFF"

definition trim :: "jsstring \<Rightarrow> jsstring" where
  "trim s = rev (dropWhile isWhiteSpace (rev (dropWhile isWhiteSpace s)))"

definition sanitizeString :: "jsstring \<Rightarrow> jsstring" where
  "sanitizeString input = trim input"

definition isValidTaskTitle :: "jsstring \<Rightarrow> bool" where
  "isValidTaskTitle title \<longleftrightarrow> length (trim title) > 0 \<and> length (trim title) \<le> 200"

text \<open>JavaScript truthiness of an optional string: \<open>undefined\<close> and \<open>""\<close> are falsy.\<close>

definition truthy :: "jsstring option \<Rightarrow> bool" where
  "truthy x = (case x of None \<Rightarrow> False | Some s \<Rightarrow> s \<noteq> [])"

definition isValidTaskDescription :: "jsstring option \<Rightarrow> bool" where
  "isValidTaskDescription description =
     (if \<not> truthy description then True
      else (case description of None \<Rightarrow> True | Some d \<Rightarrow> length d \<le> 2000))"

definition isValidLabelName :: "jsstring \<Rightarrow> bool" where
  "isValidLabelName name \<longleftrightarrow> length (trim name) > 0 \<and> length (trim name) \<le> 50"

definition isHexDigit :: "16 word \<Rightarrow> bool" where
  "isHexDigit c \<longleftrightarrow>
     (0x41 \<le> c \<and> c \<le> 0x46) \<or> (0x61 \<le> c \<and> c \<le> 0x66) \<or> (0x30 \<le> c \<and> c \<le> 0x39)"

text \<open>The pattern \<open>/^#([A-Fa-f0-9]{6}|[A-Fa-f0-9]{3})$/\<close>.\<close>

definition isValidHexColor :: "jsstring \<Rightarrow> bool" where
  "isValidHexColor color =
     (case color of
        [] \<Rightarrow> False
      | c # ds \<Rightarrow> c = 0x23 \<and> (length ds = 6 \<or> length ds = 3) \<and> list_all isHexDigit ds)"

definition isValidThreadTitle :: "jsstring option \<Rightarrow> bool" where
  "isValidThreadTitle title =
     (if \<not> truthy title then True
      else (case title of None \<Rightarrow> True
            | Some t \<Rightarrow> length (trim t) > 0 \<and> length (trim t) \<le> 200))"

section \<open>Documents and the store (convex/schema.ts)\<close>

record task =
  t_id :: nat
  t_userId :: string
  t_title :: jsstring
  t_description :: "jsstring option"
  t_status :: task_status
  t_priority :: priority
  t_dueDate :: "int option"
  t_completedAt :: "nat option"
  t_order :: int
  t_createdAt :: nat
  t_updatedAt :: nat

record label =
  l_id :: nat
  l_userId :: string
  l_name :: jsstring
  l_color :: jsstring
  l_createdAt :: nat

record taskLabel =
  tl_id :: nat
  tl_taskId :: nat
  tl_labelId :: nat
  tl_userId :: string
  tl_createdAt :: nat

record thread =
  th_id :: nat
  th_userId :: string
  th_title :: "jsstring option"
  th_status :: thread_status
  th_createdAt :: nat
  th_updatedAt :: nat

record activity =
  a_id :: nat
  a_userId :: string
  a_taskId :: nat
  a_action :: action
  a_oldValue :: "activity_value option"
  a_newValue :: "activity_value option"
  a_createdAt :: nat

record comment =
  c_id :: nat
  c_taskId :: nat
  c_userId :: string
  c_content :: jsstring
  c_type :: comment_type
  c_createdAt :: nat

subsection \<open>The rate limiter (convex/rateLimiter.ts)\<close>

datatype limit_name =
    CreateTask | UpdateTask | DeleteTask
  | CreateLabel | UpdateLabel | DeleteLabel
  | AddLabelToTask | RemoveLabelFromTask
  | CreateComment | DeleteComment
  | UpdatePreferences
  | CreateThread | SendMessage | DeleteThread

record limit_config =
  rate :: nat
  period :: nat
  capacity :: nat

definition MINUTE :: nat where "MINUTE = 60000"
definition HOUR :: nat where "HOUR = 3600000"

fun rateLimits :: "limit_name \<Rightarrow> limit_config" where
  "rateLimits CreateTask = \<lparr>rate = 30, period = MINUTE, capacity = 5\<rparr>"
| "rateLimits UpdateTask = \<lparr>rate = 60, period = MINUTE, capacity = 10\<rparr>"
| "rateLimits DeleteTask = \<lparr>rate = 30, period = MINUTE, capacity = 5\<rparr>"
| "rateLimits CreateLabel = \<lparr>rate = 20, period = MINUTE, capacity = 3\<rparr>"
| "rateLimits UpdateLabel = \<lparr>rate = 30, period = MINUTE, capacity = 5\<rparr>"
| "rateLimits DeleteLabel = \<lparr>rate = 20, period = MINUTE, capacity = 3\<rparr>"
| "rateLimits AddLabelToTask = \<lparr>rate = 50, period = MINUTE, capacity = 10\<rparr>"
| "rateLimits RemoveLabelFromTask = \<lparr>rate = 50, period = MINUTE, capacity = 10\<rparr>"
| "rateLimits CreateComment = \<lparr>rate = 30, period = MINUTE, capacity = 5\<rparr>"
| "rateLimits DeleteComment = \<lparr>rate = 30, period = MINUTE, capacity = 5\<rparr>"
| "rateLimits UpdatePreferences = \<lparr>rate = 20, period = MINUTE, capacity = 5\<rparr>"
| "rateLimits CreateThread = \<lparr>rate = 10, period = HOUR, capacity = 2\<rparr>"
| "rateLimits SendMessage = \<lparr>rate = 30, period = HOUR, capacity = 5\<rparr>"
| "rateLimits DeleteThread = \<lparr>rate = 20, period = MINUTE, capacity = 3\<rparr>"

text \<open>
  A bucket holds \<open>b_value\<close>, its tokens multiplied by the period (so that the refill
  \<open>elapsed * rate / period\<close> stays in whole numbers), and \<open>b_ts\<close>, the time of its last
  update.
\<close>

record bucket =
  b_value :: nat
  b_ts :: nat

datatype limit_status = Ok | Limited nat

record store =
  tasks :: "task list"
  labels :: "label list"
  taskLabels :: "taskLabel list"
  threads :: "thread list"
  taskActivity :: "activity list"
  taskComments :: "comment list"
  nextId :: nat
  buckets :: "limit_name \<times> string \<Rightarrow> bucket option"

text \<open>
  Modelled from the spec: the token-bucket limiter \<open>rateLimiter.limit\<close> of the external
  rate-limiter component, which is not part of the repository. A bucket starts full at
  \<open>capacity\<close> tokens, refills at \<open>rate\<close> tokens per \<open>period\<close> up to \<open>capacity\<close>, and each
  call consumes one token; a call that finds less than one token is refused with the time
  until one token is available.
\<close>

definition limit :: "store \<Rightarrow> limit_name \<Rightarrow> string \<Rightarrow> nat \<Rightarrow> limit_status \<times> store" where
  "limit s name key now =
     (let cfg = rateLimits name;
          full = capacity cfg * period cfg;
          b = (case buckets s (name, key) of
                 None \<Rightarrow> \<lparr>b_value = full, b_ts = now\<rparr>
               | Some b \<Rightarrow> b);
          v = min full (b_value b + (now - b_ts b) * rate cfg)
      in if period cfg \<le> v
         then (Ok, s\<lparr>buckets := (buckets s)((name, key) \<mapsto> \<lparr>b_value = v - period cfg, b_ts = now\<rparr>)\<rparr>)
         else (Limited ((period cfg - v + rate cfg - 1) div rate cfg), s))"

subsection \<open>The document store's primitives\<close>

text \<open>
  A table is the list of its documents in creation order. \<open>ctx.db.get\<close> finds the
  document with an id, \<open>ctx.db.patch\<close> and \<open>ctx.db.delete\<close> fail on an id the table
  does not hold, and \<open>ctx.db.insert\<close> appends a document under a fresh id.
\<close>

definition db_get :: "('r \<Rightarrow> nat) \<Rightarrow> 'r list \<Rightarrow> nat \<Rightarrow> 'r option" where
  "db_get idf rows i = find (\<lambda>r. idf r = i) rows"

definition db_patch :: "('r \<Rightarrow> nat) \<Rightarrow> 'r list \<Rightarrow> nat \<Rightarrow> ('r \<Rightarrow> 'r) \<Rightarrow> error + 'r list" where
  "db_patch idf rows i f =
     (if list_ex (\<lambda>r. idf r = i) rows
      then Inr (map (\<lambda>r. if idf r = i then f r else r) rows)
      else Inl NonexistentDocument)"

definition db_delete :: "('r \<Rightarrow> nat) \<Rightarrow> 'r list \<Rightarrow> nat \<Rightarrow> error + 'r list" where
  "db_delete idf rows i =
     (if list_ex (\<lambda>r. idf r = i) rows
      then Inr (filter (\<lambda>r. idf r \<noteq> i) rows)
      else Inl NonexistentDocument)"

section \<open>Database layer\<close>

subsection \<open>convex/db/tasks.ts\<close>

definition createTask ::
  "store \<Rightarrow> nat \<Rightarrow> string \<Rightarrow> jsstring \<Rightarrow> jsstring option \<Rightarrow> task_status \<Rightarrow> priority \<Rightarrow>
   int option \<Rightarrow> int \<Rightarrow> nat \<times> store" where
  "createTask s now userId title description status priority dueDate ord =
     (nextId s,
      s\<lparr>tasks := tasks s @
           [\<lparr>t_id = nextId s, t_userId = userId, t_title = title, t_description = description,
             t_status = status, t_priority = priority, t_dueDate = dueDate,
             t_completedAt = None, t_order = ord, t_createdAt = now, t_updatedAt = now\<rparr>],
        nextId := nextId s + 1\<rparr>)"

definition getTaskById :: "store \<Rightarrow> nat \<Rightarrow> task option" where
  "getTaskById s i = db_get t_id (tasks s) i"

text \<open>
  The argument of \<open>updateTask\<close>: a field that is \<open>None\<close> is not supplied and stays as it
  is. \<open>completedAt\<close> can also be supplied as \<open>undefined\<close> (\<open>Some None\<close>), which removes
  the field from the document.
\<close>

record task_patch =
  p_title :: "jsstring option"
  p_description :: "jsstring option"
  p_status :: "task_status option"
  p_priority :: "priority option"
  p_dueDate :: "int option"
  p_order :: "int option"
  p_completedAt :: "nat option option"

definition empty_patch :: task_patch where
  "empty_patch = \<lparr>p_title = None, p_description = None, p_status = None, p_priority = None,
                   p_dueDate = None, p_order = None, p_completedAt = None\<rparr>"

definition apply_patch :: "task_patch \<Rightarrow> nat \<Rightarrow> task \<Rightarrow> task" where
  "apply_patch p now t =
     t\<lparr>t_title := (case p_title p of None \<Rightarrow> t_title t | Some x \<Rightarrow> x),
       t_description := (case p_description p of None \<Rightarrow> t_description t | Some x \<Rightarrow> Some x),
       t_status := (case p_status p of None \<Rightarrow> t_status t | Some x \<Rightarrow> x),
       t_priority := (case p_priority p of None \<Rightarrow> t_priority t | Some x \<Rightarrow> x),
       t_dueDate := (case p_dueDate p of None \<Rightarrow> t_dueDate t | Some x \<Rightarrow> Some x),
       t_order := (case p_order p of None \<Rightarrow> t_order t | Some x \<Rightarrow> x),
       t_completedAt := (case p_completedAt p of None \<Rightarrow> t_completedAt t | Some x \<Rightarrow> x),
       t_updatedAt := now\<rparr>"

definition updateTask :: "store \<Rightarrow> nat \<Rightarrow> nat \<Rightarrow> task_patch \<Rightarrow> error + store" where
  "updateTask s now i p =
     (case db_patch t_id (tasks s) i (apply_patch p now) of
        Inl e \<Rightarrow> Inl e
      | Inr rows \<Rightarrow> Inr (s\<lparr>tasks := rows\<rparr>))"

definition deleteTask :: "store \<Rightarrow> nat \<Rightarrow> error + store" where
  "deleteTask s i =
     (case db_delete t_id (tasks s) i of
        Inl e \<Rightarrow> Inl e
      | Inr rows \<Rightarrow> Inr (s\<lparr>tasks := rows\<rparr>))"

text \<open>\<open>Math.max(...tasks.map((t) => t.order))\<close>, and 0 when there is no such task.\<close>

definition getMaxOrderForStatus :: "store \<Rightarrow> string \<Rightarrow> task_status \<Rightarrow> int" where
  "getMaxOrderForStatus s userId status =
     (case map t_order (filter (\<lambda>t. t_userId t = userId \<and> t_status t = status) (tasks s)) of
        [] \<Rightarrow> 0
      | x # xs \<Rightarrow> fold max xs x)"

subsection \<open>convex/db/taskActivity.ts\<close>

definition createTaskActivity ::
  "store \<Rightarrow> nat \<Rightarrow> string \<Rightarrow> nat \<Rightarrow> action \<Rightarrow> activity_value option \<Rightarrow>
   activity_value option \<Rightarrow> nat \<times> store" where
  "createTaskActivity s now userId taskId act oldValue newValue =
     (nextId s,
      s\<lparr>taskActivity := taskActivity s @
           [\<lparr>a_id = nextId s, a_userId = userId, a_taskId = taskId, a_action = act,
             a_oldValue = oldValue, a_newValue = newValue, a_createdAt = now\<rparr>],
        nextId := nextId s + 1\<rparr>)"

text \<open>
  An index query returns the matching documents in index order, which ends with the
  creation order; \<open>.order("desc")\<close> reverses it. The index \<open>by_task\<close> with
  \<open>eq("taskId", taskId)\<close> therefore yields the task's rows in creation order.
\<close>

definition getActivityByTask :: "store \<Rightarrow> nat \<Rightarrow> activity list" where
  "getActivityByTask s taskId = rev (filter (\<lambda>a. a_taskId a = taskId) (taskActivity s))"

definition getActivityByUser :: "store \<Rightarrow> string \<Rightarrow> activity list" where
  "getActivityByUser s userId = rev (filter (\<lambda>a. a_userId a = userId) (taskActivity s))"

text \<open>
  The index \<open>by_user_and_created\<close> is on \<open>userId\<close>, \<open>createdAt\<close>: the user's rows by
  \<open>createdAt\<close>, rows of equal \<open>createdAt\<close> in creation order (the sort is stable).
  The parameter \<open>limit: number = 20\<close> is 20 when the caller passes \<open>undefined\<close>.
\<close>

definition getRecentActivityByUser :: "store \<Rightarrow> string \<Rightarrow> nat option \<Rightarrow> activity list" where
  "getRecentActivityByUser s userId limit0 =
     (let n = (case limit0 of None \<Rightarrow> 20 | Some n \<Rightarrow> n)
      in take n (rev (sort_key a_createdAt (filter (\<lambda>a. a_userId a = userId) (taskActivity s)))))"

subsection \<open>convex/db/labels.ts\<close>

definition createLabel :: "store \<Rightarrow> nat \<Rightarrow> string \<Rightarrow> jsstring \<Rightarrow> jsstring \<Rightarrow> nat \<times> store" where
  "createLabel s now userId name color =
     (nextId s,
      s\<lparr>labels := labels s @
           [\<lparr>l_id = nextId s, l_userId = userId, l_name = name, l_color = color,
             l_createdAt = now\<rparr>],
        nextId := nextId s + 1\<rparr>)"

definition getLabelById :: "store \<Rightarrow> nat \<Rightarrow> label option" where
  "getLabelById s i = db_get l_id (labels s) i"

text \<open>
  The query is \<open>withIndex("by_user_and_name", q => q.eq("userId", userId)).filter((label)
  => label.name === name).first()\<close>. The document store's \<open>filter\<close> calls its callback
  once, with the query's filter builder, and takes the value returned as the filter
  expression. The builder is the object of the comparison operators and of \<open>field\<close>; it
  has no property \<open>name\<close>, so \<open>label.name\<close> is \<open>undefined\<close>, \<open>label.name === name\<close> is
  false for every string, the filter keeps no document and \<open>first\<close> returns null.
\<close>

datatype filter_builder = FilterBuilder

text \<open>Reading the property \<open>name\<close> of the filter builder gives \<open>undefined\<close>.\<close>

definition builder_name :: "filter_builder \<Rightarrow> jsstring option" where
  "builder_name label = None"

definition getLabelByUserAndName :: "store \<Rightarrow> string \<Rightarrow> jsstring \<Rightarrow> label option" where
  "getLabelByUserAndName s userId name =
     (let expression = (\<lambda>label. builder_name label = Some name) FilterBuilder
      in find (\<lambda>doc. expression) (filter (\<lambda>l. l_userId l = userId) (labels s)))"

record label_patch =
  lp_name :: "jsstring option"
  lp_color :: "jsstring option"

definition apply_label_patch :: "label_patch \<Rightarrow> label \<Rightarrow> label" where
  "apply_label_patch p l =
     l\<lparr>l_name := (case lp_name p of None \<Rightarrow> l_name l | Some x \<Rightarrow> x),
       l_color := (case lp_color p of None \<Rightarrow> l_color l | Some x \<Rightarrow> x)\<rparr>"

definition updateLabel :: "store \<Rightarrow> nat \<Rightarrow> label_patch \<Rightarrow> error + store" where
  "updateLabel s i p =
     (case db_patch l_id (labels s) i (apply_label_patch p) of
        Inl e \<Rightarrow> Inl e
      | Inr rows \<Rightarrow> Inr (s\<lparr>labels := rows\<rparr>))"

subsection \<open>convex/db/taskLabels.ts\<close>

text \<open>
  \<open>Promise.all(rows.map((r) => ctx.db.delete(r._id)))\<close>: every id is deleted, and the
  whole call fails when one delete fails.
\<close>

fun db_delete_all :: "('r \<Rightarrow> nat) \<Rightarrow> 'r list \<Rightarrow> nat list \<Rightarrow> error + 'r list" where
  "db_delete_all idf rows [] = Inr rows"
| "db_delete_all idf rows (i # ids) =
     (case db_delete idf rows i of
        Inl e \<Rightarrow> Inl e
      | Inr rows' \<Rightarrow> db_delete_all idf rows' ids)"

definition deleteTaskLabel :: "store \<Rightarrow> nat \<Rightarrow> nat \<Rightarrow> error + store" where
  "deleteTaskLabel s taskId labelId =
     (let taskLabel = filter (\<lambda>tl. tl_taskId tl = taskId) (taskLabels s)
      in case find (\<lambda>tl. tl_labelId tl = labelId) taskLabel of
           None \<Rightarrow> Inr s
         | Some toDelete \<Rightarrow>
            (case db_delete tl_id (taskLabels s) (tl_id toDelete) of
               Inl e \<Rightarrow> Inl e
             | Inr rows \<Rightarrow> Inr (s\<lparr>taskLabels := rows\<rparr>)))"

definition deleteAllLabelsFromTask :: "store \<Rightarrow> nat \<Rightarrow> error + store" where
  "deleteAllLabelsFromTask s taskId =
     (let taskLabels' = filter (\<lambda>tl. tl_taskId tl = taskId) (taskLabels s)
      in case db_delete_all tl_id (taskLabels s) (map tl_id taskLabels') of
           Inl e \<Rightarrow> Inl e
         | Inr rows \<Rightarrow> Inr (s\<lparr>taskLabels := rows\<rparr>))"

subsection \<open>convex/db/taskComments.ts\<close>

definition deleteTaskComment :: "store \<Rightarrow> nat \<Rightarrow> error + store" where
  "deleteTaskComment s i =
     (case db_delete c_id (taskComments s) i of
        Inl e \<Rightarrow> Inl e
      | Inr rows \<Rightarrow> Inr (s\<lparr>taskComments := rows\<rparr>))"

definition deleteAllCommentsFromTask :: "store \<Rightarrow> nat \<Rightarrow> error + store" where
  "deleteAllCommentsFromTask s taskId =
     (let comments = filter (\<lambda>c. c_taskId c = taskId) (taskComments s)
      in case db_delete_all c_id (taskComments s) (map c_id comments) of
           Inl e \<Rightarrow> Inl e
         | Inr rows \<Rightarrow> Inr (s\<lparr>taskComments := rows\<rparr>))"

subsection \<open>convex/db/threads.ts\<close>

definition db_createThread ::
  "store \<Rightarrow> nat \<Rightarrow> string \<Rightarrow> jsstring option \<Rightarrow> thread_status \<Rightarrow> nat \<times> store" where
  "db_createThread s now userId title status =
     (nextId s,
      s\<lparr>threads := threads s @
           [\<lparr>th_id = nextId s, th_userId = userId, th_title = title, th_status = status,
             th_createdAt = now, th_updatedAt = now\<rparr>],
        nextId := nextId s + 1\<rparr>)"

definition getThreadById :: "store \<Rightarrow> nat \<Rightarrow> thread option" where
  "getThreadById s i = db_get th_id (threads s) i"

text \<open>A title supplied as \<open>undefined\<close> (\<open>Some None\<close>) removes the field.\<close>

record thread_patch =
  tp_title :: "jsstring option option"
  tp_status :: "thread_status option"

definition apply_thread_patch :: "thread_patch \<Rightarrow> nat \<Rightarrow> thread \<Rightarrow> thread" where
  "apply_thread_patch p now t =
     t\<lparr>th_title := (case tp_title p of None \<Rightarrow> th_title t | Some x \<Rightarrow> x),
       th_status := (case tp_status p of None \<Rightarrow> th_status t | Some x \<Rightarrow> x),
       th_updatedAt := now\<rparr>"

definition db_updateThread :: "store \<Rightarrow> nat \<Rightarrow> nat \<Rightarrow> thread_patch \<Rightarrow> error + store" where
  "db_updateThread s now i p =
     (case db_patch th_id (threads s) i (apply_thread_patch p now) of
        Inl e \<Rightarrow> Inl e
      | Inr rows \<Rightarrow> Inr (s\<lparr>threads := rows\<rparr>))"

section \<open>Endpoint layer: tasks\<close>

text \<open>
  \<open>caller\<close> is the id of the user \<open>authComponent.getAuthUser\<close> resolves, \<open>None\<close> when
  there is no session.
\<close>

definition ep_tasks_create ::
  "string option \<Rightarrow> nat \<Rightarrow> store \<Rightarrow> jsstring \<Rightarrow> jsstring option \<Rightarrow> priority \<Rightarrow> int option \<Rightarrow>
   error + nat \<times> store" where
  "ep_tasks_create caller now s title0 description prio dueDate =
     (case caller of
        None \<Rightarrow> Inl Unauthenticated
      | Some u \<Rightarrow>
         (case limit s CreateTask u now of
            (Limited retryAfter, _) \<Rightarrow> Inl (RateLimited retryAfter)
          | (Ok, s1) \<Rightarrow>
             (let title = sanitizeString title0 in
              if \<not> isValidTaskTitle title then Inl InvalidArgument
              else if truthy description \<and> \<not> isValidTaskDescription description
                then Inl InvalidArgument
              else
                (let maxOrder = getMaxOrderForStatus s1 u Todo;
                     (taskId, s2) = createTask s1 now u title description Todo prio dueDate
                                      (maxOrder + 1);
                     (_, s3) = createTaskActivity s2 now u taskId Created None
                                 (Some (VTitlePriority title prio))
                 in Inr (taskId, s3)))))"

definition ep_tasks_get :: "string option \<Rightarrow> store \<Rightarrow> nat \<Rightarrow> error + task" where
  "ep_tasks_get caller s i =
     (case caller of
        None \<Rightarrow> Inl Unauthenticated
      | Some u \<Rightarrow>
         (case getTaskById s i of
            None \<Rightarrow> Inl NotFound
          | Some task \<Rightarrow> if t_userId task \<noteq> u then Inl Forbidden else Inr task))"

text \<open>
  \<open>if (args.title)\<close> and \<open>args.description && ...\<close> test truthiness, so an empty title is
  skipped; \<open>args.description !== undefined\<close> and \<open>args.dueDate !== undefined\<close> test
  presence. A supplied status or priority is a non-empty literal and always truthy.
\<close>

definition ep_tasks_update ::
  "string option \<Rightarrow> nat \<Rightarrow> store \<Rightarrow> nat \<Rightarrow> jsstring option \<Rightarrow> jsstring option \<Rightarrow>
   task_status option \<Rightarrow> priority option \<Rightarrow> int option \<Rightarrow> error + nat \<times> store" where
  "ep_tasks_update caller now s i title description status prio dueDate =
     (case caller of
        None \<Rightarrow> Inl Unauthenticated
      | Some u \<Rightarrow>
         (case limit s UpdateTask u now of
            (Limited retryAfter, _) \<Rightarrow> Inl (RateLimited retryAfter)
          | (Ok, s1) \<Rightarrow>
             (case getTaskById s1 i of
                None \<Rightarrow> Inl NotFound
              | Some task \<Rightarrow>
                 if t_userId task \<noteq> u then Inl Forbidden
                 else if (case title of None \<Rightarrow> False
                          | Some t \<Rightarrow> t \<noteq> [] \<and> \<not> isValidTaskTitle (sanitizeString t))
                   then Inl InvalidArgument
                 else if truthy description \<and> \<not> isValidTaskDescription description
                   then Inl InvalidArgument
                 else
                   (let updateData0 =
                          \<lparr>p_title = (case title of None \<Rightarrow> None
                                      | Some t \<Rightarrow> if t \<noteq> [] then Some (sanitizeString t) else None),
                           p_description = description,
                           p_status = None,
                           p_priority = prio,
                           p_dueDate = dueDate,
                           p_order = None,
                           p_completedAt = None\<rparr>;
                        statusChange = (case status of None \<Rightarrow> False | Some st \<Rightarrow> st \<noteq> t_status task);
                        updateData =
                          (if statusChange
                           then updateData0\<lparr>p_status := status,
                                  p_completedAt :=
                                    Some (if status = Some Completed then Some now else None)\<rparr>
                           else updateData0);
                        s2 = (if statusChange
                              then snd (createTaskActivity s1 now u i StatusChanged
                                          (Some (VStatus (t_status task))) (map_option VStatus status))
                              else s1);
                        s3 = (if (case prio of None \<Rightarrow> False | Some p \<Rightarrow> p \<noteq> t_priority task)
                              then snd (createTaskActivity s2 now u i PriorityChanged
                                          (Some (VPriority (t_priority task)))
                                          (map_option VPriority prio))
                              else s2)
                    in case updateTask s3 now i updateData of
                         Inl e \<Rightarrow> Inl e
                       | Inr s4 \<Rightarrow>
                          Inr (i, if status = None \<and> prio = None
                                  then snd (createTaskActivity s4 now u i Updated None None)
                                  else s4)))))"

definition ep_tasks_reorder ::
  "string option \<Rightarrow> nat \<Rightarrow> store \<Rightarrow> nat \<Rightarrow> int \<Rightarrow> error + nat \<times> store" where
  "ep_tasks_reorder caller now s i newOrder =
     (case caller of
        None \<Rightarrow> Inl Unauthenticated
      | Some u \<Rightarrow>
         (case limit s UpdateTask u now of
            (Limited retryAfter, _) \<Rightarrow> Inl (RateLimited retryAfter)
          | (Ok, s1) \<Rightarrow>
             (case getTaskById s1 i of
                None \<Rightarrow> Inl NotFound
              | Some task \<Rightarrow>
                 if t_userId task \<noteq> u then Inl Forbidden
                 else (case updateTask s1 now i (empty_patch\<lparr>p_order := Some newOrder\<rparr>) of
                         Inl e \<Rightarrow> Inl e
                       | Inr s2 \<Rightarrow> Inr (i, s2)))))"

definition ep_tasks_remove :: "string option \<Rightarrow> nat \<Rightarrow> store \<Rightarrow> nat \<Rightarrow> error + nat \<times> store" where
  "ep_tasks_remove caller now s i =
     (case caller of
        None \<Rightarrow> Inl Unauthenticated
      | Some u \<Rightarrow>
         (case limit s DeleteTask u now of
            (Limited retryAfter, _) \<Rightarrow> Inl (RateLimited retryAfter)
          | (Ok, s1) \<Rightarrow>
             (case getTaskById s1 i of
                None \<Rightarrow> Inl NotFound
              | Some task \<Rightarrow>
                 if t_userId task \<noteq> u then Inl Forbidden
                 else
                   (let s2 = snd (createTaskActivity s1 now u i Deleted
                                    (Some (VTitle (t_title task))) None)
                    in case deleteAllLabelsFromTask s2 i of
                         Inl e \<Rightarrow> Inl e
                       | Inr s3 \<Rightarrow>
                          (case deleteAllCommentsFromTask s3 i of
                             Inl e \<Rightarrow> Inl e
                           | Inr s4 \<Rightarrow>
                              (case deleteTask s4 i of
                                 Inl e \<Rightarrow> Inl e
                               | Inr s5 \<Rightarrow> Inr (i, s5)))))))"

section \<open>Endpoint layer: labels (convex/endpoints/labels.ts)\<close>

definition ep_labels_create ::
  "string option \<Rightarrow> nat \<Rightarrow> store \<Rightarrow> jsstring \<Rightarrow> jsstring \<Rightarrow> error + nat \<times> store" where
  "ep_labels_create caller now s name0 color =
     (case caller of
        None \<Rightarrow> Inl Unauthenticated
      | Some u \<Rightarrow>
         (case limit s CreateLabel u now of
            (Limited retryAfter, _) \<Rightarrow> Inl (RateLimited retryAfter)
          | (Ok, s1) \<Rightarrow>
             (let name = sanitizeString name0 in
              if \<not> isValidLabelName name then Inl InvalidArgument
              else if \<not> isValidHexColor color then Inl InvalidArgument
              else (case getLabelByUserAndName s1 u name of
                      Some existing \<Rightarrow> Inl InvalidArgument
                    | None \<Rightarrow> Inr (createLabel s1 now u name color)))))"

definition ep_labels_update ::
  "string option \<Rightarrow> nat \<Rightarrow> store \<Rightarrow> nat \<Rightarrow> jsstring option \<Rightarrow> jsstring option \<Rightarrow>
   error + nat \<times> store" where
  "ep_labels_update caller now s i name0 color =
     (case caller of
        None \<Rightarrow> Inl Unauthenticated
      | Some u \<Rightarrow>
         (case limit s UpdateLabel u now of
            (Limited retryAfter, _) \<Rightarrow> Inl (RateLimited retryAfter)
          | (Ok, s1) \<Rightarrow>
             (case getLabelById s1 i of
                None \<Rightarrow> Inl NotFound
              | Some label \<Rightarrow>
                 if l_userId label \<noteq> u then Inl Forbidden
                 else if (case name0 of None \<Rightarrow> False
                          | Some n \<Rightarrow> n \<noteq> [] \<and> \<not> isValidLabelName (sanitizeString n))
                   then Inl InvalidArgument
                 else if (case name0 of None \<Rightarrow> False
                          | Some n \<Rightarrow> n \<noteq> [] \<and> sanitizeString n \<noteq> l_name label \<and>
                              getLabelByUserAndName s1 u (sanitizeString n) \<noteq> None)
                   then Inl InvalidArgument
                 else if (case color of None \<Rightarrow> False
                          | Some c \<Rightarrow> c \<noteq> [] \<and> \<not> isValidHexColor c)
                   then Inl InvalidArgument
                 else
                   (let updateData =
                          \<lparr>lp_name = (case name0 of None \<Rightarrow> None
                                      | Some n \<Rightarrow> if n \<noteq> [] then Some (sanitizeString n) else None),
                           lp_color = (case color of None \<Rightarrow> None
                                       | Some c \<Rightarrow> if c \<noteq> [] then Some c else None)\<rparr>
                    in case updateLabel s1 i updateData of
                         Inl e \<Rightarrow> Inl e
                       | Inr s2 \<Rightarrow> Inr (i, s2)))))"

definition ep_labels_removeFromTask ::
  "string option \<Rightarrow> nat \<Rightarrow> store \<Rightarrow> nat \<Rightarrow> nat \<Rightarrow> error + (nat \<times> nat) \<times> store" where
  "ep_labels_removeFromTask caller now s taskId labelId =
     (case caller of
        None \<Rightarrow> Inl Unauthenticated
      | Some u \<Rightarrow>
         (case limit s RemoveLabelFromTask u now of
            (Limited retryAfter, _) \<Rightarrow> Inl (RateLimited retryAfter)
          | (Ok, s1) \<Rightarrow>
             (case getTaskById s1 taskId of
                None \<Rightarrow> Inl NotFound
              | Some task \<Rightarrow>
                 if t_userId task \<noteq> u then Inl Forbidden
                 else (case deleteTaskLabel s1 taskId labelId of
                         Inl e \<Rightarrow> Inl e
                       | Inr s2 \<Rightarrow> Inr ((taskId, labelId), s2)))))"

section \<open>Endpoint layer: comments\<close>

text \<open>
  \<open>remove\<close> carries the note "We don't have a direct query for comment by ID in db
  layer. For now, we'll just try to delete it. In production, you might want to add
  verification": after the session and rate-limit checks it deletes the id it was given.
\<close>

definition ep_comments_remove :: "string option \<Rightarrow> nat \<Rightarrow> store \<Rightarrow> nat \<Rightarrow> error + nat \<times> store" where
  "ep_comments_remove caller now s i =
     (case caller of
        None \<Rightarrow> Inl Unauthenticated
      | Some u \<Rightarrow>
         (case limit s DeleteComment u now of
            (Limited retryAfter, _) \<Rightarrow> Inl (RateLimited retryAfter)
          | (Ok, s1) \<Rightarrow>
             (case deleteTaskComment s1 i of
                Inl e \<Rightarrow> Inl e
              | Inr s2 \<Rightarrow> Inr (i, s2))))"

section \<open>Endpoint layer: activity and dashboard\<close>

definition ep_activity_getByTask :: "string option \<Rightarrow> store \<Rightarrow> nat \<Rightarrow> error + activity list" where
  "ep_activity_getByTask caller s taskId =
     (case caller of
        None \<Rightarrow> Inl Unauthenticated
      | Some u \<Rightarrow>
         (case getTaskById s taskId of
            None \<Rightarrow> Inl NotFound
          | Some task \<Rightarrow>
             if t_userId task \<noteq> u then Inl Forbidden
             else Inr (getActivityByTask s taskId)))"

definition ep_activity_getRecent :: "string option \<Rightarrow> store \<Rightarrow> nat option \<Rightarrow> error + activity list" where
  "ep_activity_getRecent caller s limit0 =
     (case caller of
        None \<Rightarrow> Inl Unauthenticated
      | Some u \<Rightarrow> Inr (getRecentActivityByUser s u limit0))"

definition ep_activity_getAll :: "string option \<Rightarrow> store \<Rightarrow> error + activity list" where
  "ep_activity_getAll caller s =
     (case caller of
        None \<Rightarrow> Inl Unauthenticated
      | Some u \<Rightarrow> Inr (getActivityByUser s u))"

text \<open>\<open>dashboard.recentActivity\<close> takes no argument and passes the limit 10.\<close>

definition ep_dashboard_recentActivity :: "string option \<Rightarrow> store \<Rightarrow> error + activity list" where
  "ep_dashboard_recentActivity caller s =
     (case caller of
        None \<Rightarrow> Inl Unauthenticated
      | Some u \<Rightarrow> Inr (getRecentActivityByUser s u (Some 10)))"

section \<open>Endpoint layer: AI threads (convex/endpoints/ai.ts)\<close>

definition ep_ai_createThread ::
  "string option \<Rightarrow> nat \<Rightarrow> store \<Rightarrow> jsstring option \<Rightarrow> error + nat \<times> store" where
  "ep_ai_createThread caller now s title =
     (case caller of
        None \<Rightarrow> Inl Unauthenticated
      | Some u \<Rightarrow>
         (case limit s CreateThread u now of
            (Limited retryAfter, _) \<Rightarrow> Inl (RateLimited retryAfter)
          | (Ok, s1) \<Rightarrow>
             if truthy title \<and> \<not> isValidThreadTitle title then Inl InvalidArgument
             else Inr (db_createThread s1 now u
                         (case title of None \<Rightarrow> None
                          | Some t \<Rightarrow> if t \<noteq> [] then Some (sanitizeString t) else None)
                         Active)))"

text \<open>\<open>updateThread\<close> goes from the session check straight to the ownership check.\<close>

definition ep_ai_updateThread ::
  "string option \<Rightarrow> nat \<Rightarrow> store \<Rightarrow> nat \<Rightarrow> jsstring option \<Rightarrow> thread_status option \<Rightarrow>
   error + nat \<times> store" where
  "ep_ai_updateThread caller now s threadId title status =
     (case caller of
        None \<Rightarrow> Inl Unauthenticated
      | Some u \<Rightarrow>
         (case getThreadById s threadId of
            None \<Rightarrow> Inl NotFound
          | Some thread \<Rightarrow>
             if th_userId thread \<noteq> u then Inl Forbidden
             else if truthy title \<and> \<not> isValidThreadTitle title then Inl InvalidArgument
             else
               (let updateData =
                      \<lparr>tp_title = (case title of None \<Rightarrow> None
                                   | Some t \<Rightarrow> Some (if t \<noteq> [] then Some (sanitizeString t) else None)),
                       tp_status = status\<rparr>
                in case db_updateThread s now threadId updateData of
                     Inl e \<Rightarrow> Inl e
                   | Inr s1 \<Rightarrow> Inr (threadId, s1))))"

section \<open>Example stores\<close>

definition fresh_store :: store where
  "fresh_store = \<lparr>tasks = [], labels = [], taskLabels = [], threads = [], taskActivity = [],
                   taskComments = [], nextId = 0, buckets = (\<lambda>_. None)\<rparr>"

definition alice_task :: task where
  "alice_task = \<lparr>t_id = 1, t_userId = ''alice'', t_title = [0x61], t_description = None,
                  t_status = Todo, t_priority = Low, t_dueDate = None, t_completedAt = None,
                  t_order = 1, t_createdAt = 1000, t_updatedAt = 1000\<rparr>"

definition alice_created :: activity where
  "alice_created = \<lparr>a_id = 2, a_userId = ''alice'', a_taskId = 1, a_action = Created,
                     a_oldValue = None, a_newValue = Some (VTitlePriority [0x61] Low),
                     a_createdAt = 1000\<rparr>"

definition alice_comment :: comment where
  "alice_comment = \<lparr>c_id = 3, c_taskId = 1, c_userId = ''alice'', c_content = [0x68, 0x69],
                     c_type = UserNote, c_createdAt = 1500\<rparr>"

definition alice_label :: label where
  "alice_label = \<lparr>l_id = 4, l_userId = ''alice'', l_name = [0x57],
                   l_color = [0x23, 0x66, 0x66, 0x66], l_createdAt = 1600\<rparr>"

definition alice_taskLabel :: taskLabel where
  "alice_taskLabel = \<lparr>tl_id = 5, tl_taskId = 1, tl_labelId = 4, tl_userId = ''alice'',
                       tl_createdAt = 1700\<rparr>"

definition alice_thread :: thread where
  "alice_thread = \<lparr>th_id = 6, th_userId = ''alice'', th_title = None, th_status = Active,
                    th_createdAt = 1800, th_updatedAt = 1800\<rparr>"

text \<open>One user with one task, its creation record, a comment, a label on the task and a thread.\<close>

definition alice_store :: store where
  "alice_store = \<lparr>tasks = [alice_task], labels = [alice_label], taskLabels = [alice_taskLabel],
                   threads = [alice_thread], taskActivity = [alice_created],
                   taskComments = [alice_comment], nextId = 7, buckets = (\<lambda>_. None)\<rparr>"

text \<open>The same store at time 5000 with every bucket empty.\<close>

definition exhausted_store :: store where
  "exhausted_store = alice_store\<lparr>buckets := (\<lambda>_. Some \<lparr>b_value = 0, b_ts = 5000\<rparr>)\<rparr>"

text \<open>\<open>alice_store\<close> after alice has removed her task at time 2000.\<close>

definition alice_store_removed :: store where
  "alice_store_removed = alice_store
     \<lparr>tasks := [], taskLabels := [], taskComments := [],
       taskActivity := [alice_created,
         \<lparr>a_id = 7, a_userId = ''alice'', a_taskId = 1, a_action = Deleted,
           a_oldValue = Some (VTitle [0x61]), a_newValue = None, a_createdAt = 2000\<rparr>],
       nextId := 8,
       buckets := (buckets alice_store)
         ((DeleteTask, ''alice'') \<mapsto> \<lparr>b_value = 240000, b_ts = 2000\<rparr>)\<rparr>"

text \<open>A store with eleven activity records of alice, created one millisecond apart.\<close>

definition activity_at :: "nat \<Rightarrow> activity" where
  "activity_at n = \<lparr>a_id = n, a_userId = ''alice'', a_taskId = 100, a_action = Updated,
                     a_oldValue = None, a_newValue = None, a_createdAt = 1000 + n\<rparr>"

definition busy_store :: store where
  "busy_store = fresh_store\<lparr>taskActivity := map activity_at [0, 1, 2, 3, 4, 5, 6, 7, 8, 9, 10], nextId := 11\<rparr>"

section \<open>Properties of a store\<close>

text \<open>\<open>completedAt\<close> is set if and only if the status is \<open>completed\<close>, for every task.\<close>

definition completedAt_inv :: "store \<Rightarrow> bool" where
  "completedAt_inv s =
     list_all (\<lambda>t. (t_completedAt t \<noteq> None) = (t_status t = Completed)) (tasks s)"

text \<open>No user has two labels of the same name.\<close>

definition label_names_unique :: "store \<Rightarrow> bool" where
  "label_names_unique s = distinct (map (\<lambda>l. (l_userId l, l_name l)) (labels s))"

section \<open>Trimming\<close>

lemma dropWhile_rev_keeps_head:
  assumes "ys = [] \<or> \<not> P (hd ys)"
  shows "dropWhile P (rev (dropWhile P (rev ys))) = rev (dropWhile P (rev ys))"
proof (cases ys)
  case Nil
  then show ?thesis by simp
next
  case (Cons y zs)
  then have ny: "\<not> P y" using assms by simp
  have "rev (dropWhile P (rev (y # zs))) = y # rev (dropWhile P (rev zs))"
    using ny by (simp add: dropWhile_append)
  then show ?thesis using Cons ny by simp
qed

lemma trim_idem: "trim (trim s) = trim s"
proof -
  have "dropWhile isWhiteSpace s = [] \<or> \<not> isWhiteSpace (hd (dropWhile isWhiteSpace s))"
    using hd_dropWhile [of isWhiteSpace s] by blast
  then show ?thesis
    by (simp add: trim_def dropWhile_rev_keeps_head)
qed

lemma trim_no_ws:
  assumes "s \<noteq> []" "\<not> isWhiteSpace (hd s)" "\<not> isWhiteSpace (last s)"
  shows "trim s = s"
proof -
  have a: "dropWhile isWhiteSpace s = s"
    using assms by (simp add: dropWhile_eq_self_iff)
  have b: "dropWhile isWhiteSpace (rev s) = rev s"
    using assms by (simp add: dropWhile_eq_self_iff hd_rev)
  show ?thesis by (simp add: trim_def a b)
qed

section \<open>Title bounds of tasks.create\<close>

text \<open>
  C8, as stated, fails: the title is trimmed before it is measured. A title of exactly
  one code unit, a space, is rejected with \<open>InvalidArgument\<close>, and a title of 201 code
  units, 200 letters and a trailing space, is accepted.
\<close>

theorem tasks_create_title_counterexample:
  "length [0x20 :: 16 word] = 1
   \<and> ep_tasks_create (Some ''alice'') 1000 fresh_store [0x20] None Low None = Inl InvalidArgument
   \<and> length (replicate 200 (0x61 :: 16 word) @ [0x20]) = 201
   \<and> \<not> isl (ep_tasks_create (Some ''alice'') 1000 fresh_store (replicate 200 0x61 @ [0x20])
              None Low None)"
  by (simp add: ep_tasks_create_def fresh_store_def limit_def MINUTE_def sanitizeString_def
      isValidTaskTitle_def trim_def isWhiteSpace_def truthy_def createTask_def
      createTaskActivity_def Let_def split: prod.splits)

text \<open>
  C8, amended: for an authenticated caller whose createTask bucket has a token and a
  valid description, tasks.create fails with \<open>InvalidArgument\<close> exactly when the trimmed
  title is empty or longer than 200 code units, and succeeds exactly when the trimmed
  title has 1 to 200 code units. For a title that neither starts nor ends with white
  space the bound is on the title itself, so such titles of 1 and of 200 code units
  succeed and such titles of 201 or more fail.
\<close>

theorem tasks_create_title_bounds:
  assumes lim: "limit s CreateTask u now = (Ok, s1)"
    and desc: "isValidTaskDescription description"
  shows "((ep_tasks_create (Some u) now s title description prio dueDate = Inl InvalidArgument)
            = (length (trim title) = 0 \<or> 200 < length (trim title)))
       \<and> ((\<exists>r. ep_tasks_create (Some u) now s title description prio dueDate = Inr r)
            = (0 < length (trim title) \<and> length (trim title) \<le> 200))
       \<and> (title \<noteq> [] \<and> \<not> isWhiteSpace (hd title) \<and> \<not> isWhiteSpace (last title) \<longrightarrow>
            (ep_tasks_create (Some u) now s title description prio dueDate = Inl InvalidArgument)
              = (200 < length title))"
proof -
  have v: "isValidTaskTitle (sanitizeString title)
             = (0 < length (trim title) \<and> length (trim title) \<le> 200)"
    by (simp add: isValidTaskTitle_def sanitizeString_def trim_idem)
  have a: "(ep_tasks_create (Some u) now s title description prio dueDate = Inl InvalidArgument)
            = (\<not> isValidTaskTitle (sanitizeString title))"
    using lim desc by (simp add: ep_tasks_create_def Let_def split: prod.splits)
  have b: "(\<exists>r. ep_tasks_create (Some u) now s title description prio dueDate = Inr r)
            = isValidTaskTitle (sanitizeString title)"
    using lim desc by (simp add: ep_tasks_create_def Let_def split: prod.splits)
  have c: "title \<noteq> [] \<and> \<not> isWhiteSpace (hd title) \<and> \<not> isWhiteSpace (last title)
             \<longrightarrow> trim title = title"
    using trim_no_ws by blast
  show ?thesis using a b c v by auto
qed

theorem tasks_create_title_bounds_witness:
  "limit fresh_store CreateTask ''alice'' 1000 =
     (Ok, fresh_store\<lparr>buckets := (buckets fresh_store)
            ((CreateTask, ''alice'') \<mapsto> \<lparr>b_value = 240000, b_ts = 1000\<rparr>)\<rparr>)
   \<and> isValidTaskDescription None
   \<and> (\<exists>r. ep_tasks_create (Some ''alice'') 1000 fresh_store [0x61] None Low None = Inr r)
   \<and> (\<exists>r. ep_tasks_create (Some ''alice'') 1000 fresh_store (replicate 200 0x61) None Low None
            = Inr r)
   \<and> ep_tasks_create (Some ''alice'') 1000 fresh_store (replicate 201 0x61) None Low None
       = Inl InvalidArgument
   \<and> ep_tasks_create (Some ''alice'') 1000 fresh_store [] None Low None = Inl InvalidArgument"
proof -
  have l: "limit fresh_store CreateTask ''alice'' 1000 =
     (Ok, fresh_store\<lparr>buckets := (buckets fresh_store)
            ((CreateTask, ''alice'') \<mapsto> \<lparr>b_value = 240000, b_ts = 1000\<rparr>)\<rparr>)"
    by (simp add: limit_def fresh_store_def MINUTE_def)
  have d: "isValidTaskDescription None"
    by (simp add: isValidTaskDescription_def truthy_def)
  have ws: "\<not> isWhiteSpace 0x61"
    by (simp add: isWhiteSpace_def)
  have t1: "trim [0x61] = [0x61]" "trim [] = []"
    by (simp_all add: trim_def ws)
  have t200: "trim (replicate 200 0x61) = replicate 200 0x61"
    "trim (replicate 201 0x61) = replicate 201 0x61"
    by (rule trim_no_ws; simp add: ws)+
  show ?thesis
    using tasks_create_title_bounds [OF l d, of "replicate 200 0x61" Low None]
      tasks_create_title_bounds [OF l d, of "replicate 201 0x61" Low None]
      tasks_create_title_bounds [OF l d, of "[0x61]" Low None]
      tasks_create_title_bounds [OF l d, of "[]" Low None]
      l d
    by (simp add: t1 t200)
qed

section \<open>The limiter and the store primitives\<close>

lemmas fixture_defs = alice_store_def alice_task_def alice_created_def alice_comment_def
  alice_label_def alice_taskLabel_def alice_thread_def exhausted_store_def

lemma limit_Ok_fields:
  assumes "limit s n k now = (Ok, s1)"
  shows "tasks s1 = tasks s" "labels s1 = labels s" "taskLabels s1 = taskLabels s"
    "threads s1 = threads s" "taskActivity s1 = taskActivity s"
    "taskComments s1 = taskComments s" "nextId s1 = nextId s"
  using assms by (auto simp: limit_def Let_def split: if_splits)

lemma getTaskById_limit: "limit s n k now = (Ok, s1) \<Longrightarrow> getTaskById s1 i = getTaskById s i"
  by (simp add: getTaskById_def limit_Ok_fields)

lemma createTaskActivity_fields [simp]:
  "tasks (snd (createTaskActivity s now u i a ov nv)) = tasks s"
  "labels (snd (createTaskActivity s now u i a ov nv)) = labels s"
  "taskLabels (snd (createTaskActivity s now u i a ov nv)) = taskLabels s"
  "taskComments (snd (createTaskActivity s now u i a ov nv)) = taskComments s"
  "threads (snd (createTaskActivity s now u i a ov nv)) = threads s"
  by (simp_all add: createTaskActivity_def)

lemma db_get_list_ex: "db_get idf rows i = Some r \<Longrightarrow> list_ex (\<lambda>r. idf r = i) rows"
  by (auto simp: db_get_def find_Some_iff list_ex_iff)

lemma db_get_map:
  assumes "\<And>r. idf (f r) = idf r"
  shows "db_get idf (map (\<lambda>r. if idf r = i then f r else r) rows) i = map_option f (db_get idf rows i)"
  unfolding db_get_def using assms by (induction rows) auto

lemma apply_patch_id [simp]: "t_id (apply_patch p now t) = t_id t"
  by (simp add: apply_patch_def)

lemma apply_patch_status:
  "t_status (apply_patch p now t) = (case p_status p of None \<Rightarrow> t_status t | Some x \<Rightarrow> x)"
  "t_completedAt (apply_patch p now t) = (case p_completedAt p of None \<Rightarrow> t_completedAt t | Some x \<Rightarrow> x)"
  by (simp_all add: apply_patch_def)

lemma list_all_map_if:
  "list_all P xs \<Longrightarrow> (\<And>x. P x \<Longrightarrow> P (f x)) \<Longrightarrow>
     list_all P (map (\<lambda>x. if c x then f x else x) xs)"
  by (induction xs) auto

lemma updateTask_Inr:
  "updateTask s now i p = Inr s' \<Longrightarrow>
     s' = s\<lparr>tasks := map (\<lambda>t. if t_id t = i then apply_patch p now t else t) (tasks s)\<rparr>"
  by (auto simp: updateTask_def db_patch_def split: if_splits)

lemma db_delete_Inr: "db_delete idf rows i = Inr rows' \<Longrightarrow> rows' = filter (\<lambda>r. idf r \<noteq> i) rows"
  by (auto simp: db_delete_def split: if_splits)

lemma db_delete_all_Inr:
  "db_delete_all idf rows ids = Inr rows' \<Longrightarrow> rows' = filter (\<lambda>r. idf r \<notin> set ids) rows"
proof (induction ids arbitrary: rows)
  case Nil
  then show ?case by simp
next
  case (Cons i ids)
  then obtain mid where m: "db_delete idf rows i = Inr mid" and r: "db_delete_all idf mid ids = Inr rows'"
    by (auto split: sum.splits)
  have "rows' = filter (\<lambda>r. idf r \<notin> set ids) mid" using Cons.IH [OF r] .
  also have "mid = filter (\<lambda>r. idf r \<noteq> i) rows" using db_delete_Inr [OF m] .
  finally show ?case by (simp add: conj_commute)
qed

lemma deleteAllLabelsFromTask_Inr:
  assumes "deleteAllLabelsFromTask s i = Inr s'"
  shows "\<exists>rows. s' = s\<lparr>taskLabels := rows\<rparr> \<and> (\<forall>tl \<in> set rows. tl_taskId tl \<noteq> i)"
proof -
  from assms obtain rows where
    d: "db_delete_all tl_id (taskLabels s) (map tl_id (filter (\<lambda>tl. tl_taskId tl = i) (taskLabels s))) = Inr rows"
    and s': "s' = s\<lparr>taskLabels := rows\<rparr>"
    by (auto simp: deleteAllLabelsFromTask_def Let_def split: sum.splits)
  have "\<forall>tl \<in> set rows. tl_taskId tl \<noteq> i"
    using db_delete_all_Inr [OF d] by auto
  then show ?thesis using s' by blast
qed

lemma deleteAllCommentsFromTask_Inr:
  assumes "deleteAllCommentsFromTask s i = Inr s'"
  shows "\<exists>rows. s' = s\<lparr>taskComments := rows\<rparr> \<and> (\<forall>c \<in> set rows. c_taskId c \<noteq> i)"
proof -
  from assms obtain rows where
    d: "db_delete_all c_id (taskComments s) (map c_id (filter (\<lambda>c. c_taskId c = i) (taskComments s))) = Inr rows"
    and s': "s' = s\<lparr>taskComments := rows\<rparr>"
    by (auto simp: deleteAllCommentsFromTask_def Let_def split: sum.splits)
  have "\<forall>c \<in> set rows. c_taskId c \<noteq> i"
    using db_delete_all_Inr [OF d] by auto
  then show ?thesis using s' by blast
qed

lemma deleteTask_Inr:
  "deleteTask s i = Inr s' \<Longrightarrow> s' = s\<lparr>tasks := filter (\<lambda>t. t_id t \<noteq> i) (tasks s)\<rparr>"
  by (auto simp: deleteTask_def dest: db_delete_Inr split: sum.splits)

section \<open>What a successful task operation does to the store\<close>

lemma ep_tasks_create_Inr:
  assumes "ep_tasks_create caller now s title d p dd = Inr (i, s')"
  shows "\<exists>t. tasks s' = tasks s @ [t] \<and> t_id t = i \<and> t_status t = Todo \<and> t_completedAt t = None"
  using assms
  by (auto simp: ep_tasks_create_def Let_def createTask_def createTaskActivity_def limit_Ok_fields
      split: option.splits prod.splits limit_status.splits if_splits)

lemma ep_tasks_update_Inr:
  assumes "ep_tasks_update caller now s i title d st p dd = Inr (j, s')"
  shows "\<exists>task pt. getTaskById s i = Some task \<and> j = i
      \<and> tasks s' = map (\<lambda>t. if t_id t = i then apply_patch pt now t else t) (tasks s)
      \<and> ((\<exists>x. st = Some x \<and> x \<noteq> t_status task \<and> p_status pt = Some x
              \<and> p_completedAt pt = Some (if x = Completed then Some now else None))
         \<or> ((st = None \<or> st = Some (t_status task)) \<and> p_status pt = None \<and> p_completedAt pt = None))"
proof -
  from assms obtain u s1 task where
    c: "caller = Some u" and l: "limit s UpdateTask u now = (Ok, s1)"
    and g: "getTaskById s1 i = Some task"
    by (auto simp: ep_tasks_update_def split: option.splits prod.splits limit_status.splits)
  have g': "getTaskById s i = Some task" using g l by (simp add: getTaskById_limit)
  show ?thesis
  proof (cases "case st of None \<Rightarrow> False | Some x \<Rightarrow> x \<noteq> t_status task")
    case True
    then obtain x where x: "st = Some x" "x \<noteq> t_status task" by (auto split: option.splits)
    show ?thesis
      using assms c l g g' x
      apply (simp add: ep_tasks_update_def Let_def split: if_splits sum.splits)
      apply (auto dest!: updateTask_Inr simp: limit_Ok_fields)
      done
  next
    case False
    then have x: "st = None \<or> st = Some (t_status task)" by (auto split: option.splits)
    show ?thesis
      using assms c l g g' x
      apply (simp add: ep_tasks_update_def Let_def split: if_splits sum.splits)
      apply (auto dest!: updateTask_Inr simp: limit_Ok_fields)
      done
  qed
qed

lemma ep_tasks_remove_unfold:
  assumes "limit s DeleteTask u now = (Ok, s1)" "getTaskById s1 i = Some task" "t_userId task = u"
  shows "ep_tasks_remove (Some u) now s i =
     (case deleteAllLabelsFromTask
             (snd (createTaskActivity s1 now u i Deleted (Some (VTitle (t_title task))) None)) i of
        Inl e \<Rightarrow> Inl e
      | Inr s3 \<Rightarrow>
         (case deleteAllCommentsFromTask s3 i of
            Inl e \<Rightarrow> Inl e
          | Inr s4 \<Rightarrow>
             (case deleteTask s4 i of
                Inl e \<Rightarrow> Inl e
              | Inr s5 \<Rightarrow> Inr (i, s5))))"
  using assms by (simp add: ep_tasks_remove_def Let_def)

lemma ep_tasks_remove_Inr:
  assumes "ep_tasks_remove caller now s i = Inr (j, s')"
  shows "\<exists>u task. caller = Some u \<and> getTaskById s i = Some task \<and> t_userId task = u \<and> j = i
      \<and> tasks s' = filter (\<lambda>t. t_id t \<noteq> i) (tasks s)
      \<and> (\<forall>tl \<in> set (taskLabels s'). tl_taskId tl \<noteq> i)
      \<and> (\<forall>c \<in> set (taskComments s'). c_taskId c \<noteq> i)
      \<and> taskActivity s' = taskActivity s @
           [\<lparr>a_id = nextId s, a_userId = u, a_taskId = i, a_action = Deleted,
             a_oldValue = Some (VTitle (t_title task)), a_newValue = None, a_createdAt = now\<rparr>]"
proof -
  from assms obtain u s1 task where
    c: "caller = Some u" and l: "limit s DeleteTask u now = (Ok, s1)"
    and g: "getTaskById s1 i = Some task" and o: "t_userId task = u"
    by (auto simp: ep_tasks_remove_def split: option.splits prod.splits limit_status.splits if_splits)
  define s2 where "s2 = snd (createTaskActivity s1 now u i Deleted (Some (VTitle (t_title task))) None)"
  have eq: "(case deleteAllLabelsFromTask s2 i of
        Inl e \<Rightarrow> Inl e
      | Inr s3 \<Rightarrow>
         (case deleteAllCommentsFromTask s3 i of
            Inl e \<Rightarrow> Inl e
          | Inr s4 \<Rightarrow>
             (case deleteTask s4 i of
                Inl e \<Rightarrow> Inl e
              | Inr s5 \<Rightarrow> Inr (i, s5)))) = Inr (j, s')"
    using assms unfolding c ep_tasks_remove_unfold [OF l g o] s2_def .
  then obtain s3 where d3: "deleteAllLabelsFromTask s2 i = Inr s3"
    by (cases "deleteAllLabelsFromTask s2 i") auto
  with eq obtain s4 where d4: "deleteAllCommentsFromTask s3 i = Inr s4"
    by (cases "deleteAllCommentsFromTask s3 i") auto
  with eq d3 have d5: "deleteTask s4 i = Inr s'" and j: "j = i"
    by (cases "deleteTask s4 i"; simp)+
  obtain r3 where r3: "s3 = s2\<lparr>taskLabels := r3\<rparr>" "\<forall>tl \<in> set r3. tl_taskId tl \<noteq> i"
    using deleteAllLabelsFromTask_Inr [OF d3] by blast
  obtain r4 where r4: "s4 = s3\<lparr>taskComments := r4\<rparr>" "\<forall>c \<in> set r4. c_taskId c \<noteq> i"
    using deleteAllCommentsFromTask_Inr [OF d4] by blast
  have s': "s' = s4\<lparr>tasks := filter (\<lambda>t. t_id t \<noteq> i) (tasks s4)\<rparr>"
    using deleteTask_Inr [OF d5] .
  have g': "getTaskById s i = Some task" using g l by (simp add: getTaskById_limit)
  have act: "taskActivity s2 = taskActivity s @
           [\<lparr>a_id = nextId s, a_userId = u, a_taskId = i, a_action = Deleted,
             a_oldValue = Some (VTitle (t_title task)), a_newValue = None, a_createdAt = now\<rparr>]"
    by (simp add: s2_def createTaskActivity_def limit_Ok_fields [OF l])
  have t2: "tasks s2 = tasks s" by (simp add: s2_def limit_Ok_fields [OF l])
  have f1: "tasks s' = filter (\<lambda>t. t_id t \<noteq> i) (tasks s)"
    by (simp add: s' r4(1) r3(1) t2)
  have f2: "taskLabels s' = r3"
    by (simp add: s' r4(1) r3(1))
  have f3: "taskComments s' = r4"
    by (simp add: s' r4(1))
  have f4: "taskActivity s' = taskActivity s2"
    by (simp add: s' r4(1) r3(1))
  show ?thesis
    using c g' o j r3(2) r4(2) unfolding f1 f2 f3 f4 act by blast
qed

lemma ep_tasks_reorder_Inr:
  assumes "ep_tasks_reorder caller now s i n = Inr (j, s')"
  shows "tasks s' = map (\<lambda>t. if t_id t = i then t\<lparr>t_order := n, t_updatedAt := now\<rparr> else t) (tasks s)"
proof -
  have p: "apply_patch (empty_patch\<lparr>p_order := Some n\<rparr>) now = (\<lambda>t. t\<lparr>t_order := n, t_updatedAt := now\<rparr>)"
    by (rule ext) (simp add: apply_patch_def empty_patch_def)
  from assms obtain u s1 task where
    c: "caller = Some u" and l: "limit s UpdateTask u now = (Ok, s1)"
    and g: "getTaskById s1 i = Some task" and o: "t_userId task = u"
    by (auto simp: ep_tasks_reorder_def split: option.splits prod.splits limit_status.splits if_splits)
  have "updateTask s1 now i (empty_patch\<lparr>p_order := Some n\<rparr>) = Inr s'"
    using assms c l g o
    by (cases "updateTask s1 now i (empty_patch\<lparr>p_order := Some n\<rparr>)")
      (simp_all add: ep_tasks_reorder_def)
  from updateTask_Inr [OF this] show ?thesis
    by (simp add: p limit_Ok_fields [OF l])
qed

section \<open>The completedAt invariant\<close>

lemma create_keeps_inv:
  assumes inv: "completedAt_inv s" and a: "ep_tasks_create caller now s ctitle cdesc cprio cdue = Inr (i, s')"
  shows "completedAt_inv s'"
  using ep_tasks_create_Inr [OF a] inv by (auto simp: completedAt_inv_def)

lemma update_keeps_inv:
  assumes inv: "completedAt_inv s" and a: "ep_tasks_update caller now s i title d st p dd = Inr (j, s')"
  shows "completedAt_inv s'"
  using ep_tasks_update_Inr [OF a]
proof (elim exE conjE)
  fix task :: task and pt
  assume t: "tasks s' = map (\<lambda>t. if t_id t = i then apply_patch pt now t else t) (tasks s)"
    and c: "(\<exists>x. st = Some x \<and> x \<noteq> t_status task \<and> p_status pt = Some x
              \<and> p_completedAt pt = Some (if x = Completed then Some now else None))
         \<or> ((st = None \<or> st = Some (t_status task)) \<and> p_status pt = None \<and> p_completedAt pt = None)"
  have c': "(\<exists>x. p_status pt = Some x
               \<and> p_completedAt pt = Some (if x = Completed then Some now else None))
            \<or> (p_status pt = None \<and> p_completedAt pt = None)"
    using c by (elim disjE exE conjE) simp_all
  have k: "(t_completedAt (apply_patch pt now r) \<noteq> None) = (t_status (apply_patch pt now r) = Completed)"
    if r: "(t_completedAt r \<noteq> None) = (t_status r = Completed)" for r
    using c'
  proof (elim disjE exE conjE)
    fix x assume "p_status pt = Some x"
      "p_completedAt pt = Some (if x = Completed then Some now else None)"
    then show ?thesis by (simp add: apply_patch_status)
  next
    assume "p_status pt = None" "p_completedAt pt = None"
    then show ?thesis using r by (simp add: apply_patch_status)
  qed
  show ?thesis
    unfolding completedAt_inv_def t
    by (rule list_all_map_if [OF inv [unfolded completedAt_inv_def]]) (rule k)
qed

lemma update_sets_completedAt:
  assumes a: "ep_tasks_update caller now s i title d st p dd = Inr (j, s')"
    and g0: "getTaskById s i = Some task0" and x: "st = Some x" "x \<noteq> t_status task0"
  shows "\<exists>task'. getTaskById s' i = Some task' \<and> t_status task' = x
           \<and> t_completedAt task' = (if x = Completed then Some now else None)"
  using ep_tasks_update_Inr [OF a]
proof (elim exE conjE)
  fix task :: task and pt
  assume g: "getTaskById s i = Some task"
    and t: "tasks s' = map (\<lambda>t. if t_id t = i then apply_patch pt now t else t) (tasks s)"
    and c: "(\<exists>x. st = Some x \<and> x \<noteq> t_status task \<and> p_status pt = Some x
              \<and> p_completedAt pt = Some (if x = Completed then Some now else None))
         \<or> ((st = None \<or> st = Some (t_status task)) \<and> p_status pt = None \<and> p_completedAt pt = None)"
  have e: "task0 = task" using g g0 by simp
  have px: "p_status pt = Some x \<and> p_completedAt pt = Some (if x = Completed then Some now else None)"
    using c x e by (elim disjE exE conjE) simp_all
  have "getTaskById s' i = Some (apply_patch pt now task)"
    using g by (simp add: getTaskById_def t db_get_map)
  then show ?thesis
    using px by (simp add: apply_patch_status)
qed

lemma reorder_keeps_status:
  assumes a: "ep_tasks_reorder caller now s i n = Inr (j, s')"
  shows "map t_status (tasks s') = map t_status (tasks s)"
    and "map t_completedAt (tasks s') = map t_completedAt (tasks s)"
  unfolding ep_tasks_reorder_Inr [OF a] by (induction "tasks s") auto

lemma reorder_keeps_inv:
  assumes inv: "completedAt_inv s" and a: "ep_tasks_reorder caller now s i n = Inr (j, s')"
  shows "completedAt_inv s'"
  using inv unfolding completedAt_inv_def ep_tasks_reorder_Inr [OF a] by (auto simp: list_all_iff)

lemma remove_keeps_inv:
  assumes inv: "completedAt_inv s" and a: "ep_tasks_remove caller now s i = Inr (j, s')"
  shows "completedAt_inv s'"
proof -
  from ep_tasks_remove_Inr [OF a] have "tasks s' = filter (\<lambda>t. t_id t \<noteq> i) (tasks s)" by blast
  then show ?thesis
    using inv by (auto simp: completedAt_inv_def list_all_iff)
qed

text \<open>
  C3: in a store where every task has \<open>completedAt\<close> set exactly when its status is
  completed, the same holds after every successful tasks.create, tasks.update,
  tasks.reorder and tasks.remove. tasks.create appends a todo task without
  \<open>completedAt\<close>; tasks.update that changes the status to \<open>x\<close> leaves the task with
  status \<open>x\<close> and \<open>completedAt\<close> set to the time of the call when \<open>x\<close> is completed
  and unset otherwise; tasks.reorder changes no status and no \<open>completedAt\<close>.
\<close>

theorem completedAt_invariant:
  assumes inv: "completedAt_inv s"
  shows "(\<forall>i s'. ep_tasks_create caller now s ctitle cdesc cprio cdue = Inr (i, s') \<longrightarrow>
            completedAt_inv s'
            \<and> (\<exists>t. tasks s' = tasks s @ [t] \<and> t_id t = i \<and> t_status t = Todo \<and> t_completedAt t = None))
       \<and> (\<forall>j s'. ep_tasks_update caller now s i title d st p dd = Inr (j, s') \<longrightarrow>
            completedAt_inv s'
            \<and> (\<forall>task x. getTaskById s i = Some task \<and> st = Some x \<and> x \<noteq> t_status task \<longrightarrow>
                 (\<exists>task'. getTaskById s' i = Some task' \<and> t_status task' = x
                    \<and> t_completedAt task' = (if x = Completed then Some now else None))))
       \<and> (\<forall>j s'. ep_tasks_reorder caller now s i n = Inr (j, s') \<longrightarrow>
            completedAt_inv s'
            \<and> map t_status (tasks s') = map t_status (tasks s)
            \<and> map t_completedAt (tasks s') = map t_completedAt (tasks s))
       \<and> (\<forall>j s'. ep_tasks_remove caller now s i = Inr (j, s') \<longrightarrow> completedAt_inv s')"
proof -
  have A: "\<forall>i s'. ep_tasks_create caller now s ctitle cdesc cprio cdue = Inr (i, s') \<longrightarrow>
            completedAt_inv s'
            \<and> (\<exists>t. tasks s' = tasks s @ [t] \<and> t_id t = i \<and> t_status t = Todo \<and> t_completedAt t = None)"
  proof (intro allI impI)
    fix i s' assume a: "ep_tasks_create caller now s ctitle cdesc cprio cdue = Inr (i, s')"
    show "completedAt_inv s'
            \<and> (\<exists>t. tasks s' = tasks s @ [t] \<and> t_id t = i \<and> t_status t = Todo \<and> t_completedAt t = None)"
      using create_keeps_inv [OF inv a] ep_tasks_create_Inr [OF a] by (rule conjI)
  qed
  have B: "\<forall>j s'. ep_tasks_update caller now s i title d st p dd = Inr (j, s') \<longrightarrow>
            completedAt_inv s'
            \<and> (\<forall>task x. getTaskById s i = Some task \<and> st = Some x \<and> x \<noteq> t_status task \<longrightarrow>
                 (\<exists>task'. getTaskById s' i = Some task' \<and> t_status task' = x
                    \<and> t_completedAt task' = (if x = Completed then Some now else None)))"
  proof (intro allI impI)
    fix j s' assume a: "ep_tasks_update caller now s i title d st p dd = Inr (j, s')"
    have 1: "completedAt_inv s'"
      by (rule update_keeps_inv [OF inv a])
    have 2: "\<forall>task x. getTaskById s i = Some task \<and> st = Some x \<and> x \<noteq> t_status task \<longrightarrow>
                 (\<exists>task'. getTaskById s' i = Some task' \<and> t_status task' = x
                    \<and> t_completedAt task' = (if x = Completed then Some now else None))"
    proof (intro allI impI)
      fix task x assume h: "getTaskById s i = Some task \<and> st = Some x \<and> x \<noteq> t_status task"
      show "\<exists>task'. getTaskById s' i = Some task' \<and> t_status task' = x
                    \<and> t_completedAt task' = (if x = Completed then Some now else None)"
        using update_sets_completedAt [OF a, of task x] h by blast
    qed
    show "completedAt_inv s'
            \<and> (\<forall>task x. getTaskById s i = Some task \<and> st = Some x \<and> x \<noteq> t_status task \<longrightarrow>
                 (\<exists>task'. getTaskById s' i = Some task' \<and> t_status task' = x
                    \<and> t_completedAt task' = (if x = Completed then Some now else None)))"
      using 1 2 by (rule conjI)
  qed
  have C: "\<forall>j s'. ep_tasks_reorder caller now s i n = Inr (j, s') \<longrightarrow>
            completedAt_inv s'
            \<and> map t_status (tasks s') = map t_status (tasks s)
            \<and> map t_completedAt (tasks s') = map t_completedAt (tasks s)"
  proof (intro allI impI)
    fix j s' assume a: "ep_tasks_reorder caller now s i n = Inr (j, s')"
    show "completedAt_inv s'
            \<and> map t_status (tasks s') = map t_status (tasks s)
            \<and> map t_completedAt (tasks s') = map t_completedAt (tasks s)"
      using reorder_keeps_inv [OF inv a] reorder_keeps_status [OF a] by simp
  qed
  have D: "\<forall>j s'. ep_tasks_remove caller now s i = Inr (j, s') \<longrightarrow> completedAt_inv s'"
  proof (intro allI impI)
    fix j s' assume a: "ep_tasks_remove caller now s i = Inr (j, s')"
    show "completedAt_inv s'" by (rule remove_keeps_inv [OF inv a])
  qed
  show ?thesis using A B C D by (intro conjI)
qed

theorem completedAt_invariant_witness:
  "completedAt_inv alice_store
   \<and> ep_tasks_update (Some ''alice'') 2000 alice_store 1 None None (Some Completed) None None
       = Inr (1, alice_store
               \<lparr>tasks := [alice_task\<lparr>t_status := Completed, t_completedAt := Some 2000,
                                     t_updatedAt := 2000\<rparr>],
                 taskActivity := [alice_created,
                   \<lparr>a_id = 7, a_userId = ''alice'', a_taskId = 1, a_action = StatusChanged,
                     a_oldValue = Some (VStatus Todo), a_newValue = Some (VStatus Completed),
                     a_createdAt = 2000\<rparr>],
                 nextId := 8,
                 buckets := (buckets alice_store)
                   ((UpdateTask, ''alice'') \<mapsto> \<lparr>b_value = 540000, b_ts = 2000\<rparr>)\<rparr>)
   \<and> completedAt_inv (alice_store
               \<lparr>tasks := [alice_task\<lparr>t_status := Completed, t_completedAt := Some 2000,
                                     t_updatedAt := 2000\<rparr>],
                 taskActivity := [alice_created,
                   \<lparr>a_id = 7, a_userId = ''alice'', a_taskId = 1, a_action = StatusChanged,
                     a_oldValue = Some (VStatus Todo), a_newValue = Some (VStatus Completed),
                     a_createdAt = 2000\<rparr>],
                 nextId := 8,
                 buckets := (buckets alice_store)
                   ((UpdateTask, ''alice'') \<mapsto> \<lparr>b_value = 540000, b_ts = 2000\<rparr>)\<rparr>)"
proof -
  have inv: "completedAt_inv alice_store"
    by (simp add: completedAt_inv_def alice_store_def alice_task_def)
  have eq: "ep_tasks_update (Some ''alice'') 2000 alice_store 1 None None (Some Completed) None None
       = Inr (1, alice_store
               \<lparr>tasks := [alice_task\<lparr>t_status := Completed, t_completedAt := Some 2000,
                                     t_updatedAt := 2000\<rparr>],
                 taskActivity := [alice_created,
                   \<lparr>a_id = 7, a_userId = ''alice'', a_taskId = 1, a_action = StatusChanged,
                     a_oldValue = Some (VStatus Todo), a_newValue = Some (VStatus Completed),
                     a_createdAt = 2000\<rparr>],
                 nextId := 8,
                 buckets := (buckets alice_store)
                   ((UpdateTask, ''alice'') \<mapsto> \<lparr>b_value = 540000, b_ts = 2000\<rparr>)\<rparr>)"
    by (simp add: ep_tasks_update_def limit_def MINUTE_def getTaskById_def db_get_def
        fixture_defs truthy_def updateTask_def db_patch_def apply_patch_def
        createTaskActivity_def Let_def)
  from completedAt_invariant [OF inv, of "Some ''alice''" 2000 "[]" None Low None 1 None None
      "Some Completed" None None 0] eq inv
  show ?thesis by blast
qed

section \<open>Updates that change nothing\<close>

text \<open>
  C9: for a task the caller owns, with a token in the caller's updateTask bucket,
  tasks.update that supplies only a status equal to the task's current status succeeds,
  appends no activity record, and changes nothing in the task but \<open>updatedAt\<close>.
\<close>

theorem update_same_status_only:
  assumes lim: "limit s UpdateTask u now = (Ok, s1)"
    and get: "getTaskById s i = Some task"
    and own: "t_userId task = u"
  shows "\<exists>s'. ep_tasks_update (Some u) now s i None None (Some (t_status task)) None None
                 = Inr (i, s')
              \<and> taskActivity s' = taskActivity s
              \<and> tasks s' = map (\<lambda>t. if t_id t = i then t\<lparr>t_updatedAt := now\<rparr> else t) (tasks s)"
proof -
  have ex: "list_ex (\<lambda>r. t_id r = i) (tasks s)"
    using get by (simp add: getTaskById_def db_get_list_ex)
  have p: "apply_patch \<lparr>p_title = None, p_description = None, p_status = None,
                        p_priority = None, p_dueDate = None, p_order = None,
                        p_completedAt = None\<rparr> now = (\<lambda>t. t\<lparr>t_updatedAt := now\<rparr>)"
    by (rule ext) (simp add: apply_patch_def)
  have "ep_tasks_update (Some u) now s i None None (Some (t_status task)) None None
          = Inr (i, s1\<lparr>tasks := map (\<lambda>t. if t_id t = i then t\<lparr>t_updatedAt := now\<rparr> else t)
                                  (tasks s)\<rparr>)"
    using lim get own ex
    by (simp add: ep_tasks_update_def getTaskById_limit truthy_def updateTask_def db_patch_def
        limit_Ok_fields p Let_def)
  then show ?thesis
    by (simp add: limit_Ok_fields [OF lim])
qed

theorem update_same_status_only_witness:
  "limit alice_store UpdateTask ''alice'' 2000 =
     (Ok, alice_store\<lparr>buckets := (buckets alice_store)
            ((UpdateTask, ''alice'') \<mapsto> \<lparr>b_value = 540000, b_ts = 2000\<rparr>)\<rparr>)
   \<and> getTaskById alice_store 1 = Some alice_task
   \<and> t_userId alice_task = ''alice''
   \<and> (\<exists>s'. ep_tasks_update (Some ''alice'') 2000 alice_store 1 None None (Some Todo) None None
               = Inr (1, s')
            \<and> taskActivity s' = [alice_created]
            \<and> tasks s' = [alice_task\<lparr>t_updatedAt := 2000\<rparr>])"
proof -
  have l: "limit alice_store UpdateTask ''alice'' 2000 =
     (Ok, alice_store\<lparr>buckets := (buckets alice_store)
            ((UpdateTask, ''alice'') \<mapsto> \<lparr>b_value = 540000, b_ts = 2000\<rparr>)\<rparr>)"
    by (simp add: limit_def alice_store_def MINUTE_def)
  have g: "getTaskById alice_store 1 = Some alice_task"
    by (simp add: getTaskById_def db_get_def alice_store_def alice_task_def)
  have o: "t_userId alice_task = ''alice''"
    by (simp add: alice_task_def)
  have st: "t_status alice_task = Todo" "t_id alice_task = 1"
    "taskActivity alice_store = [alice_created]" "tasks alice_store = [alice_task]"
    by (simp_all add: alice_task_def alice_store_def)
  show ?thesis
    using update_same_status_only [OF l g o] l g o by (simp add: st)
qed

section \<open>Removing a label from a task\<close>

lemma deleteTaskLabel_succeeds: "\<exists>s'. deleteTaskLabel s taskId labelId = Inr s'"
proof (cases "find (\<lambda>tl. tl_labelId tl = labelId) (filter (\<lambda>tl. tl_taskId tl = taskId) (taskLabels s))")
  case None
  then show ?thesis by (simp add: deleteTaskLabel_def)
next
  case (Some d)
  then have "d \<in> set (taskLabels s)" by (auto simp: find_Some_iff dest: nth_mem)
  then have "list_ex (\<lambda>r. tl_id r = tl_id d) (taskLabels s)" by (auto simp: list_ex_iff)
  then show ?thesis using Some by (simp add: deleteTaskLabel_def db_delete_def)
qed

lemma deleteTaskLabel_absent:
  assumes "\<not> (\<exists>tl \<in> set (taskLabels s). tl_taskId tl = taskId \<and> tl_labelId tl = labelId)"
  shows "deleteTaskLabel s taskId labelId = Inr s"
proof -
  have "find (\<lambda>tl. tl_labelId tl = labelId) (filter (\<lambda>tl. tl_taskId tl = taskId) (taskLabels s)) = None"
    using assms by (auto simp: find_None_iff)
  then show ?thesis by (simp add: deleteTaskLabel_def)
qed

text \<open>
  C10: for a task the caller owns, with a token in the caller's removeLabelFromTask
  bucket, labels.removeFromTask returns the composite key whether or not an association
  row exists; when none exists nothing is deleted (only the bucket has changed).
\<close>

theorem removeFromTask_idempotent:
  assumes lim: "limit s RemoveLabelFromTask u now = (Ok, s1)"
    and get: "getTaskById s taskId = Some task"
    and own: "t_userId task = u"
  shows "(\<exists>s'. ep_labels_removeFromTask (Some u) now s taskId labelId = Inr ((taskId, labelId), s'))
       \<and> (\<not> (\<exists>tl \<in> set (taskLabels s). tl_taskId tl = taskId \<and> tl_labelId tl = labelId) \<longrightarrow>
            ep_labels_removeFromTask (Some u) now s taskId labelId = Inr ((taskId, labelId), s1)
            \<and> taskLabels s1 = taskLabels s)"
proof -
  obtain s' where d: "deleteTaskLabel s1 taskId labelId = Inr s'"
    using deleteTaskLabel_succeeds by blast
  have a: "\<exists>s'. ep_labels_removeFromTask (Some u) now s taskId labelId = Inr ((taskId, labelId), s')"
    using lim get own d by (simp add: ep_labels_removeFromTask_def getTaskById_limit)
  have b: "ep_labels_removeFromTask (Some u) now s taskId labelId = Inr ((taskId, labelId), s1)"
    if "\<not> (\<exists>tl \<in> set (taskLabels s). tl_taskId tl = taskId \<and> tl_labelId tl = labelId)"
  proof -
    have "deleteTaskLabel s1 taskId labelId = Inr s1"
      using that lim by (intro deleteTaskLabel_absent) (simp add: limit_Ok_fields)
    then show ?thesis
      using lim get own by (simp add: ep_labels_removeFromTask_def getTaskById_limit)
  qed
  show ?thesis using a b lim by (auto simp: limit_Ok_fields)
qed

theorem removeFromTask_idempotent_witness:
  "limit alice_store RemoveLabelFromTask ''alice'' 2000 =
     (Ok, alice_store\<lparr>buckets := (buckets alice_store)
            ((RemoveLabelFromTask, ''alice'') \<mapsto> \<lparr>b_value = 540000, b_ts = 2000\<rparr>)\<rparr>)
   \<and> getTaskById alice_store 1 = Some alice_task
   \<and> t_userId alice_task = ''alice''
   \<and> ep_labels_removeFromTask (Some ''alice'') 2000 alice_store 1 99
       = Inr ((1, 99), alice_store\<lparr>buckets := (buckets alice_store)
            ((RemoveLabelFromTask, ''alice'') \<mapsto> \<lparr>b_value = 540000, b_ts = 2000\<rparr>)\<rparr>)"
proof -
  have l: "limit alice_store RemoveLabelFromTask ''alice'' 2000 =
     (Ok, alice_store\<lparr>buckets := (buckets alice_store)
            ((RemoveLabelFromTask, ''alice'') \<mapsto> \<lparr>b_value = 540000, b_ts = 2000\<rparr>)\<rparr>)"
    by (simp add: limit_def alice_store_def MINUTE_def)
  have g: "getTaskById alice_store 1 = Some alice_task"
    by (simp add: getTaskById_def db_get_def alice_store_def alice_task_def)
  have o: "t_userId alice_task = ''alice''"
    by (simp add: alice_task_def)
  have n: "\<not> (\<exists>tl \<in> set (taskLabels alice_store). tl_taskId tl = 1 \<and> tl_labelId tl = 99)"
    by (simp add: alice_store_def alice_taskLabel_def)
  show ?thesis
    using removeFromTask_idempotent [OF l g o, of 99] l g o n by simp
qed

section \<open>Evaluations on the example store\<close>

text \<open>
  C1: the comment with id 3 belongs to alice. bob is refused by tasks.get on alice's
  task, but comments.remove called by bob with alice's comment id succeeds and the
  comment is gone from the store.
\<close>

theorem comments_remove_cross_user:
  "c_userId alice_comment = ''alice''
   \<and> taskComments alice_store = [alice_comment]
   \<and> ep_tasks_get (Some ''bob'') alice_store 1 = Inl Forbidden
   \<and> ep_comments_remove (Some ''bob'') 2000 alice_store (c_id alice_comment)
       = Inr (c_id alice_comment,
              alice_store\<lparr>taskComments := [],
                buckets := (buckets alice_store)
                  ((DeleteComment, ''bob'') \<mapsto> \<lparr>b_value = 240000, b_ts = 2000\<rparr>)\<rparr>)"
  by (simp add: ep_tasks_get_def ep_comments_remove_def limit_def MINUTE_def getTaskById_def
      db_get_def fixture_defs deleteTaskComment_def db_delete_def)

text \<open>
  C4: alice's task is todo. An update that supplies a new title together with the
  unchanged status todo succeeds and changes the title, and the activity log is still
  the single creation record: neither a status, a priority nor a generic record is
  appended. The same title change without a status appends one generic record.
\<close>

theorem update_title_with_same_status:
  "ep_tasks_update (Some ''alice'') 2000 alice_store 1 (Some [0x62]) None (Some Todo) None None
     = Inr (1, alice_store
             \<lparr>tasks := [alice_task\<lparr>t_title := [0x62], t_updatedAt := 2000\<rparr>],
               taskActivity := [alice_created],
               buckets := (buckets alice_store)
                 ((UpdateTask, ''alice'') \<mapsto> \<lparr>b_value = 540000, b_ts = 2000\<rparr>)\<rparr>)
   \<and> ep_tasks_update (Some ''alice'') 2000 alice_store 1 (Some [0x62]) None None None None
     = Inr (1, alice_store
             \<lparr>tasks := [alice_task\<lparr>t_title := [0x62], t_updatedAt := 2000\<rparr>],
               taskActivity := [alice_created,
                 \<lparr>a_id = 7, a_userId = ''alice'', a_taskId = 1, a_action = Updated,
                   a_oldValue = None, a_newValue = None, a_createdAt = 2000\<rparr>],
               nextId := 8,
               buckets := (buckets alice_store)
                 ((UpdateTask, ''alice'') \<mapsto> \<lparr>b_value = 540000, b_ts = 2000\<rparr>)\<rparr>)"
  by (simp add: ep_tasks_update_def limit_def MINUTE_def getTaskById_def db_get_def
      fixture_defs sanitizeString_def isValidTaskTitle_def trim_def isWhiteSpace_def truthy_def
      updateTask_def db_patch_def apply_patch_def createTaskActivity_def Let_def)

text \<open>
  C5: at time 5000 every bucket of the store is empty. ai.createThread by alice is
  refused with \<open>RateLimited\<close>, while ai.updateThread by alice succeeds, archives her
  thread and leaves every bucket as it was.
\<close>

theorem updateThread_not_rate_limited:
  "ep_ai_createThread (Some ''alice'') 5000 exhausted_store None = Inl (RateLimited 360000)
   \<and> ep_ai_updateThread (Some ''alice'') 5000 exhausted_store 6 None (Some Archived)
       = Inr (6, exhausted_store
               \<lparr>threads := [alice_thread\<lparr>th_status := Archived, th_updatedAt := 5000\<rparr>]\<rparr>)"
  by (simp add: ep_ai_createThread_def ep_ai_updateThread_def limit_def HOUR_def
      getThreadById_def db_get_def fixture_defs truthy_def db_updateThread_def db_patch_def
      apply_thread_patch_def)

section \<open>Cascade of tasks.remove\<close>

lemma alice_remove_eval:
  "ep_tasks_remove (Some ''alice'') 2000 alice_store 1 = Inr (1, alice_store_removed)"
  by (simp add: ep_tasks_remove_def limit_def MINUTE_def getTaskById_def db_get_def
      fixture_defs alice_store_removed_def createTaskActivity_def deleteAllLabelsFromTask_def
      deleteAllCommentsFromTask_def deleteTask_def db_delete_def Let_def)

text \<open>
  C2, as stated, fails in its last part: before the removal activity.getByTask returns
  the task's creation record; after alice removes her task the record is still in the
  store, but activity.getByTask answers \<open>NotFound\<close>, because it looks the task up first.
\<close>

theorem remove_then_getByTask_counterexample:
  "ep_activity_getByTask (Some ''alice'') alice_store 1 = Inr [alice_created]
   \<and> ep_tasks_remove (Some ''alice'') 2000 alice_store 1 = Inr (1, alice_store_removed)
   \<and> taskActivity alice_store_removed \<noteq> []
   \<and> ep_activity_getByTask (Some ''alice'') alice_store_removed 1 = Inl NotFound"
  using alice_remove_eval
  by (simp add: ep_activity_getByTask_def getActivityByTask_def getTaskById_def db_get_def
      fixture_defs alice_store_removed_def)

text \<open>
  C2, amended: after tasks.remove(id) succeeds, no TaskLabel row and no TaskComment row
  referencing the task remains; every TaskActivity row is retained and one \<open>deleted\<close>
  record for the task is appended; the caller's rows for the task remain readable through
  activity.getAll, while activity.getByTask(id) fails with \<open>NotFound\<close>.
\<close>

theorem remove_cascade:
  assumes a: "ep_tasks_remove caller now s i = Inr (j, s')"
  shows "(\<forall>tl \<in> set (taskLabels s'). tl_taskId tl \<noteq> i)
       \<and> (\<forall>c \<in> set (taskComments s'). c_taskId c \<noteq> i)
       \<and> (\<exists>d. taskActivity s' = taskActivity s @ [d] \<and> a_taskId d = i \<and> a_action d = Deleted)
       \<and> ep_activity_getByTask caller s' i = Inl NotFound
       \<and> (\<exists>r. ep_activity_getAll caller s' = Inr r
              \<and> (\<forall>x \<in> set (taskActivity s). a_taskId x = i \<and> Some (a_userId x) = caller \<longrightarrow> x \<in> set r))"
  using ep_tasks_remove_Inr [OF a]
proof (elim exE conjE)
  fix u and task :: task
  assume c: "caller = Some u"
    and t: "tasks s' = filter (\<lambda>t. t_id t \<noteq> i) (tasks s)"
    and l: "\<forall>tl \<in> set (taskLabels s'). tl_taskId tl \<noteq> i"
    and m: "\<forall>c \<in> set (taskComments s'). c_taskId c \<noteq> i"
    and act: "taskActivity s' = taskActivity s @
           [\<lparr>a_id = nextId s, a_userId = u, a_taskId = i, a_action = Deleted,
             a_oldValue = Some (VTitle (t_title task)), a_newValue = None, a_createdAt = now\<rparr>]"
  have gone: "getTaskById s' i = None"
    by (simp add: getTaskById_def db_get_def t find_None_iff)
  have 3: "\<exists>d. taskActivity s' = taskActivity s @ [d] \<and> a_taskId d = i \<and> a_action d = Deleted"
    using act by simp
  have 4: "ep_activity_getByTask caller s' i = Inl NotFound"
    by (simp add: ep_activity_getByTask_def c gone)
  have 5: "\<exists>r. ep_activity_getAll caller s' = Inr r
              \<and> (\<forall>x \<in> set (taskActivity s). a_taskId x = i \<and> Some (a_userId x) = caller \<longrightarrow> x \<in> set r)"
    by (simp add: ep_activity_getAll_def getActivityByUser_def c act)
  show ?thesis using l m 3 4 5 by (intro conjI)
qed

theorem remove_cascade_witness:
  "ep_tasks_remove (Some ''alice'') 2000 alice_store 1 = Inr (1, alice_store_removed)
   \<and> taskLabels alice_store_removed = []
   \<and> taskComments alice_store_removed = []
   \<and> ep_activity_getByTask (Some ''alice'') alice_store_removed 1 = Inl NotFound
   \<and> (\<exists>r. ep_activity_getAll (Some ''alice'') alice_store_removed = Inr r
          \<and> alice_created \<in> set r)"
proof -
  have m: "alice_created \<in> set (taskActivity alice_store)" "a_taskId alice_created = 1"
    "a_userId alice_created = ''alice''"
    by (simp_all add: alice_store_def alice_created_def)
  have e: "taskLabels alice_store_removed = []" "taskComments alice_store_removed = []"
    by (simp_all add: alice_store_removed_def)
  from remove_cascade [OF alice_remove_eval] m e alice_remove_eval
  show ?thesis by blast
qed

section \<open>Uniqueness of label names\<close>

text \<open>
  C6: alice owns the label "W" and her label names are unique. labels.create by alice
  with the name " W ", which is sanitized to "W", is not refused: it succeeds and adds a
  second label named "W", so her label names are no longer unique.
\<close>

theorem labels_create_duplicate_name:
  "l_userId alice_label = ''alice''
   \<and> l_name alice_label = sanitizeString [0x20, 0x57, 0x20]
   \<and> label_names_unique alice_store
   \<and> ep_labels_create (Some ''alice'') 2000 alice_store [0x20, 0x57, 0x20]
         [0x23, 0x61, 0x62, 0x63]
       = Inr (7, alice_store
               \<lparr>labels := [alice_label,
                   \<lparr>l_id = 7, l_userId = ''alice'', l_name = [0x57],
                     l_color = [0x23, 0x61, 0x62, 0x63], l_createdAt = 2000\<rparr>],
                 nextId := 8,
                 buckets := (buckets alice_store)
                   ((CreateLabel, ''alice'') \<mapsto> \<lparr>b_value = 120000, b_ts = 2000\<rparr>)\<rparr>)
   \<and> \<not> label_names_unique (alice_store
               \<lparr>labels := [alice_label,
                   \<lparr>l_id = 7, l_userId = ''alice'', l_name = [0x57],
                     l_color = [0x23, 0x61, 0x62, 0x63], l_createdAt = 2000\<rparr>],
                 nextId := 8,
                 buckets := (buckets alice_store)
                   ((CreateLabel, ''alice'') \<mapsto> \<lparr>b_value = 120000, b_ts = 2000\<rparr>)\<rparr>)"
  by (simp add: ep_labels_create_def limit_def MINUTE_def fixture_defs sanitizeString_def
      isValidLabelName_def trim_def isWhiteSpace_def isValidHexColor_def isHexDigit_def
      getLabelByUserAndName_def builder_name_def createLabel_def label_names_unique_def)

section \<open>Recent activity on the dashboard\<close>

text \<open>
  C7, as stated, fails: dashboard.recentActivity has no limit argument and asks for 10
  records. With eleven records of alice in the store it returns the ten newest, where a
  limit defaulting to 20 would return all eleven, as activity.getRecent without a limit
  does.
\<close>

theorem dashboard_recentActivity_counterexample:
  "length (taskActivity busy_store) = 11
   \<and> map_sum id (map a_id) (ep_dashboard_recentActivity (Some ''alice'') busy_store)
       = Inr [10, 9, 8, 7, 6, 5, 4, 3, 2, 1]
   \<and> map_sum id (map a_id) (ep_activity_getRecent (Some ''alice'') busy_store None)
       = Inr [10, 9, 8, 7, 6, 5, 4, 3, 2, 1, 0]"
  by (simp add: busy_store_def fresh_store_def ep_dashboard_recentActivity_def
      ep_activity_getRecent_def getRecentActivityByUser_def activity_at_def)

lemma recent_props:
  fixes xs :: "activity list"
  defines "l \<equiv> rev (sort_key a_createdAt xs)"
  shows "length (take n l) = min n (length xs)"
    and "take n l @ drop n l = l"
    and "mset l = mset xs"
    and "sorted_wrt (\<lambda>a b. a_createdAt b \<le> a_createdAt a) l"
    and "length xs \<le> n \<Longrightarrow> take n l = l"
proof -
  show "length (take n l) = min n (length xs)"
    by (simp add: l_def min.commute)
  show "take n l @ drop n l = l"
    by simp
  show "mset l = mset xs"
    by (simp add: l_def)
  have "sorted (map a_createdAt (sort_key a_createdAt xs))"
    by (rule sorted_sort_key)
  then show "sorted_wrt (\<lambda>a b. a_createdAt b \<le> a_createdAt a) l"
    by (simp add: l_def sorted_wrt_rev sorted_map)
  show "take n l = l" if "length xs \<le> n"
    using that by (simp add: l_def)
qed

text \<open>
  C7, amended: dashboard.recentActivity takes no limit and returns the caller's 10 most
  recent TaskActivity records, all of them when there are fewer, ordered by creation
  time descending: the result followed by some rest is a rearrangement of exactly the
  caller's records that is sorted by \<open>createdAt\<close> descending (records of equal
  \<open>createdAt\<close> in reverse creation order), and its length is the smaller of 10 and the
  number of the caller's records. The default of 20 is that of activity.getRecent called
  without a limit, which returns the 20 most recent in the same way, and the dashboard's
  result is the first 10 of those.
\<close>

theorem dashboard_recentActivity_ten:
  "\<exists>r r20.
      ep_dashboard_recentActivity (Some u) s = Inr r
      \<and> length r = min 10 (length (filter (\<lambda>a. a_userId a = u) (taskActivity s)))
      \<and> (\<exists>rest. mset (r @ rest) = mset (filter (\<lambda>a. a_userId a = u) (taskActivity s))
             \<and> sorted_wrt (\<lambda>a b. a_createdAt b \<le> a_createdAt a) (r @ rest)
             \<and> r @ rest = rev (sort_key a_createdAt
                                 (filter (\<lambda>a. a_userId a = u) (taskActivity s))))
      \<and> (length (filter (\<lambda>a. a_userId a = u) (taskActivity s)) \<le> 10 \<longrightarrow>
            mset r = mset (filter (\<lambda>a. a_userId a = u) (taskActivity s)))
      \<and> ep_activity_getRecent (Some u) s None = Inr r20
      \<and> length r20 = min 20 (length (filter (\<lambda>a. a_userId a = u) (taskActivity s)))
      \<and> (\<exists>rest. mset (r20 @ rest) = mset (filter (\<lambda>a. a_userId a = u) (taskActivity s))
             \<and> sorted_wrt (\<lambda>a b. a_createdAt b \<le> a_createdAt a) (r20 @ rest)
             \<and> r20 @ rest = rev (sort_key a_createdAt
                                   (filter (\<lambda>a. a_userId a = u) (taskActivity s))))
      \<and> (length (filter (\<lambda>a. a_userId a = u) (taskActivity s)) \<le> 20 \<longrightarrow>
            mset r20 = mset (filter (\<lambda>a. a_userId a = u) (taskActivity s)))
      \<and> r = take 10 r20"
proof -
  let ?xs = "filter (\<lambda>a. a_userId a = u) (taskActivity s)"
  let ?l = "rev (sort_key a_createdAt ?xs)"
  let ?P = "\<lambda>r rest. mset (r @ rest) = mset ?xs
             \<and> sorted_wrt (\<lambda>a b. a_createdAt b \<le> a_createdAt a) (r @ rest)
             \<and> r @ rest = ?l"
  have e: "ep_dashboard_recentActivity (Some u) s = Inr (take 10 ?l)"
    by (simp add: ep_dashboard_recentActivity_def getRecentActivityByUser_def)
  have e20: "ep_activity_getRecent (Some u) s None = Inr (take 20 ?l)"
    by (simp add: ep_activity_getRecent_def getRecentActivityByUser_def)
  have len: "length (take n ?l) = min n (length ?xs)" for n
    by (rule recent_props(1))
  have whole: "?P (take n ?l) (drop n ?l)" for n
    unfolding recent_props(2) using recent_props(3) recent_props(4) by blast
  then have ex: "\<exists>rest. ?P (take n ?l) rest" for n
    by blast
  have all: "length ?xs \<le> n \<longrightarrow> mset (take n ?l) = mset ?xs" for n
    using recent_props(5) [of ?xs n] recent_props(3) [of ?xs] by simp
  have tt: "take 10 ?l = take 10 (take 20 ?l)"
    by simp
  show ?thesis
    apply (rule exI [of _ "take 10 ?l"])
    apply (rule exI [of _ "take 20 ?l"])
    apply (intro conjI)
            apply (rule e)
           apply (rule len)
          apply (rule ex)
         apply (rule all)
        apply (rule e20)
       apply (rule len)
      apply (rule ex)
     apply (rule all)
    apply (rule tt)
    done
qed

text \<open>
  On the store with eleven records the dashboard returns the ten newest and
  activity.getRecent all eleven; on \<open>alice_store\<close>, with one record, both return it.
\<close>

lemma alice_activity_count:
  "length (filter (\<lambda>a. a_userId a = ''alice'') (taskActivity alice_store)) \<le> 10"
  "mset (filter (\<lambda>a. a_userId a = ''alice'') (taskActivity alice_store)) = {#alice_created#}"
  by (simp_all add: alice_store_def alice_created_def)

theorem dashboard_recentActivity_ten_witness:
  "(\<exists>r. ep_dashboard_recentActivity (Some ''alice'') alice_store = Inr r
        \<and> mset r = {#alice_created#})
   \<and> (\<exists>r r20. ep_dashboard_recentActivity (Some ''alice'') busy_store = Inr r
        \<and> ep_activity_getRecent (Some ''alice'') busy_store None = Inr r20
        \<and> length r = 10 \<and> length r20 = 11 \<and> r = take 10 r20
        \<and> mset r20 = mset (taskActivity busy_store))"
proof -
  have a: "\<exists>r. ep_dashboard_recentActivity (Some ''alice'') alice_store = Inr r
        \<and> mset r = {#alice_created#}"
    using dashboard_recentActivity_ten [of "''alice''" alice_store] alice_activity_count
    by auto
  have f: "filter (\<lambda>a. a_userId a = ''alice'') (taskActivity busy_store) = taskActivity busy_store"
    "length (taskActivity busy_store) = 11"
    by (simp_all add: busy_store_def activity_at_def)
  have b: "\<exists>r r20. ep_dashboard_recentActivity (Some ''alice'') busy_store = Inr r
        \<and> ep_activity_getRecent (Some ''alice'') busy_store None = Inr r20
        \<and> length r = 10 \<and> length r20 = 11 \<and> r = take 10 r20
        \<and> mset r20 = mset (taskActivity busy_store)"
    using dashboard_recentActivity_ten [of "''alice''" busy_store]
    unfolding f by auto
  show ?thesis using a b by (rule conjI)
qed

end
